theory Spec2Isabelle
  imports Complex_Main
begin

section \<open>Python values shared by the modules\<close>

text \<open>
  Exceptions of the Python source are values: a function that can raise returns
  \<open>py_error + 'a\<close>, with \<open>Inl\<close> for the exception that leaves the function.
  \<open>ReError\<close> stands for \<open>re.error\<close>.
\<close>

datatype py_error = IndexError | ValueError | TypeError | ReError

section \<open>QTL.py: peak detection\<close>

text \<open>
  A pandas Series is the list of its (label, value) pairs in positional order. LOD scores
  are reals: the comparisons and \<open>abs\<close> of the source are exact on floats, NaN entries
  are outside the model. \<open>LOD_scores\<close> maps a trait code (the index of the DataFrame, taken
  unique) to its row. A row of the marker table has its index label, the columns \<open>chr\<close>
  and \<open>start\<close> that \<open>get_region\<close> reads (the fields \<open>marker_chr\<close> and
  \<open>marker_start\<close>), and whatever other columns the file has.
\<close>

type_synonym series = "(string \<times> real) list"

datatype cell = IntCell int | StrCell string

record marker_row =
  row_label :: cell
  marker_chr :: int
  marker_start :: int
  other_cells :: "cell list"

record study =
  name :: string
  LOD_scores :: "string \<rightharpoonup> series"
  markers :: "marker_row list"

text \<open>\<open>find_local_maxima\<close>: the loop over \<open>range(1, len(data) - 1)\<close> appending \<open>i\<close>.\<close>

definition find_local_maxima :: "real list \<Rightarrow> nat list" where
  "find_local_maxima data =
     [i \<leftarrow> [1 ..< length data - 1]. data ! i > data ! (i - 1) \<and> data ! i > data ! (i + 1)]"

text \<open>
  \<open>Series.quantile(q)\<close> with the default linear interpolation, in real arithmetic: the
  value at position \<open>(n - 1) * q\<close> of the sorted values. On an empty Series pandas gives
  NaN, which compares false with everything; no value is compared with it then, and the
  model returns 0.
\<close>

definition quantile :: "real list \<Rightarrow> real \<Rightarrow> real" where
  "quantile vs q =
     (if vs = [] then 0
      else let sorted_vs = sort vs;
               pos = (real (length vs) - 1) * q;
               lo = nat \<lfloor>pos\<rfloor>;
               hi = min (lo + 1) (length vs - 1);
               frac = pos - real lo
           in sorted_vs ! lo + (sorted_vs ! hi - sorted_vs ! lo) * frac)"

definition abs_series :: "series \<Rightarrow> series" where
  "abs_series s = map (\<lambda>(m, v). (m, \<bar>v\<bar>)) s"

definition cell_isin :: "cell \<Rightarrow> string list \<Rightarrow> bool" where
  "cell_isin c labels = (case c of StrCell s \<Rightarrow> s \<in> set labels | IntCell _ \<Rightarrow> False)"

text \<open>
  \<open>Study.get_peak\<close>. The result is the pair the source returns: \<open>(None, None)\<close> for a
  trait that is not in the index, the two frames otherwise. \<open>markers.isin(labels)\<close> tests
  every cell of a row against the labels, which are strings, so the integer columns
  never match.
\<close>

definition get_peak ::
  "study \<Rightarrow> string \<Rightarrow> real \<Rightarrow> series option \<times> marker_row list option" where
  "get_peak self trait threshold =
     (case LOD_scores self trait of
        None \<Rightarrow> (None, None)
      | Some row \<Rightarrow>
          let trait_LOD = abs_series row;
              threshold = (if threshold = 0 then quantile (map snd trait_LOD) (95 / 100)
                           else threshold);
              peak_LOD = filter (\<lambda>(m, v). v \<ge> threshold) trait_LOD;
              labels = map fst peak_LOD;
              peak_markers = filter (\<lambda>r. cell_isin (row_label r) labels) (markers self);
              peak_markers =
                (if length peak_markers = 0
                 then filter (\<lambda>r. cell_isin (IntCell (marker_chr r)) labels
                                  \<or> cell_isin (IntCell (marker_start r)) labels
                                  \<or> (\<exists>c \<in> set (other_cells r). cell_isin c labels))
                        (markers self)
                 else peak_markers)
          in (Some peak_LOD, Some peak_markers))"

text \<open>
  \<open>Study.get_peak_local_max\<close>. \<open>trait_LOD[i]\<close> with an integer on a Series labelled by
  marker names is positional. \<open>self.markers.iloc[peak_indices]\<close> raises IndexError when
  a position is beyond the marker table.
\<close>

definition get_peak_local_max ::
  "study \<Rightarrow> string \<Rightarrow> real \<Rightarrow> py_error + (series option \<times> marker_row list option)" where
  "get_peak_local_max self trait threshold =
     (case LOD_scores self trait of
        None \<Rightarrow> Inr (None, None)
      | Some row \<Rightarrow>
          let trait_LOD = abs_series row;
              threshold = (if threshold = 0 then quantile (map snd trait_LOD) (95 / 100)
                           else threshold);
              maxima_indices = find_local_maxima (map snd trait_LOD);
              peak_indices = [i \<leftarrow> maxima_indices. snd (trait_LOD ! i) \<ge> threshold];
              peak_LOD = map (\<lambda>i. trait_LOD ! i) peak_indices
          in if \<forall>i \<in> set peak_indices. i < length (markers self)
             then Inr (Some peak_LOD, Some (map (\<lambda>i. markers self ! i) peak_indices))
             else Inl IndexError)"

section \<open>Python strings\<close>

text \<open>
  Strings are lists of bytes. \<open>str.strip()\<close> removes the ASCII whitespace characters
  (tab, line feed, vertical tab, form feed, carriage return, the separators
  \<open>0x1C\<close> to \<open>0x1F\<close> and the space); whitespace beyond ASCII is outside the model.
\<close>

definition TAB :: char where "TAB = CHR 0x09"
definition NL :: char where "NL = CHR 0x0A"
definition DQUOTE :: char where "DQUOTE = CHR 0x22"

definition startswith :: "string \<Rightarrow> string \<Rightarrow> bool" where
  "startswith s p = (take (length p) s = p)"

definition isspace :: "char \<Rightarrow> bool" where
  "isspace c = (let n = (of_char c :: nat) in (9 \<le> n \<and> n \<le> 13) \<or> (28 \<le> n \<and> n \<le> 32))"

definition strip_chars :: "(char \<Rightarrow> bool) \<Rightarrow> string \<Rightarrow> string" where
  "strip_chars P s = rev (dropWhile P (rev (dropWhile P s)))"

definition py_strip :: "string \<Rightarrow> string" where
  "py_strip s = strip_chars isspace s"

text \<open>\<open>s.split(sep)\<close> for a separator of one character: never the empty list.\<close>

fun py_split :: "char \<Rightarrow> string \<Rightarrow> string list" where
  "py_split sep [] = [[]]"
| "py_split sep (c # cs) =
     (if c = sep then [] # py_split sep cs
      else (case py_split sep cs of
              [] \<Rightarrow> [[c]]
            | w # ws \<Rightarrow> (c # w) # ws))"

text \<open>
  \<open>int(s)\<close> on a string, base 10: surrounding whitespace, an optional sign, then decimal
  digits in which single underscores may separate digits. \<open>None\<close> is ValueError. The
  whitespace that \<open>int\<close> skips is, within ASCII, the tab, line feed, vertical tab, form
  feed, carriage return and the space, not the separators \<open>0x1C\<close> to \<open>0x1F\<close>; digits
  and spaces beyond ASCII are outside the model.
\<close>

definition int_space :: "char \<Rightarrow> bool" where
  "int_space c = (let n = (of_char c :: nat) in (9 \<le> n \<and> n \<le> 13) \<or> n = 32)"

definition is_digit :: "char \<Rightarrow> bool" where
  "is_digit c = (let n = (of_char c :: nat) in 48 \<le> n \<and> n \<le> 57)"

fun valid_digits :: "string \<Rightarrow> bool" where
  "valid_digits [] = False"
| "valid_digits [c] = is_digit c"
| "valid_digits (c # d # cs) =
     (is_digit c \<and> (if d = CHR ''_'' then valid_digits cs else valid_digits (d # cs)))"

definition digits_value :: "string \<Rightarrow> int" where
  "digits_value s =
     foldl (\<lambda>n c. if c = CHR ''_'' then n else 10 * n + (of_char c - 48)) 0 s"

definition py_int :: "string \<Rightarrow> int option" where
  "py_int s =
     (let t = strip_chars int_space s;
          (negative, body) = (case t of
                                 [] \<Rightarrow> (False, t)
                               | c # r \<Rightarrow> if c = CHR ''-'' then (True, r)
                                          else if c = CHR ''+'' then (False, r)
                                          else (False, t))
      in if valid_digits body
         then Some (if negative then - digits_value body else digits_value body)
         else None)"

text \<open>The decimal rendering of an integer, as an f-string formats it.\<close>

fun str_nat :: "nat \<Rightarrow> string" where
  "str_nat n = (if n < 10 then [char_of (48 + n)]
                else str_nat (n div 10) @ [char_of (48 + n mod 10)])"

definition str_int :: "int \<Rightarrow> string" where
  "str_int i = (if i < 0 then CHR ''-'' # str_nat (nat (- i)) else str_nat (nat i))"

section \<open>GenesInRegion.py: genes of a region\<close>

text \<open>
  \<open>attribute_pattern = re.compile(r'([^=;]+)=("[^"]+"|[^;]+)')\<close>. One match attempt at the
  head of a string: the longest run without \<open>=\<close> and \<open>;\<close> (not empty), an \<open>=\<close>, then
  either a quoted run without quotes (not empty) or the longest run without \<open>;\<close> (not
  empty). The greedy runs cannot be shortened into a match, since the character after a
  shorter run belongs to the run. The result is the two groups and the text left.
\<close>

definition match_attribute :: "string \<Rightarrow> ((string \<times> string) \<times> string) option" where
  "match_attribute s =
     (let key = takeWhile (\<lambda>c. c \<noteq> CHR ''='' \<and> c \<noteq> CHR '';'') s;
          rest = dropWhile (\<lambda>c. c \<noteq> CHR ''='' \<and> c \<noteq> CHR '';'') s
      in if key = [] then None
         else (case rest of
                 [] \<Rightarrow> None
               | e # after_eq \<Rightarrow>
                   if e \<noteq> CHR ''='' then None
                   else
                     let quoted =
                           (case after_eq of
                              [] \<Rightarrow> None
                            | q # r \<Rightarrow>
                                if q \<noteq> DQUOTE then None
                                else let body = takeWhile (\<lambda>c. c \<noteq> DQUOTE) r;
                                         tl_r = dropWhile (\<lambda>c. c \<noteq> DQUOTE) r
                                     in if body = [] \<or> tl_r = [] then None
                                        else Some ((key, DQUOTE # body @ [DQUOTE]), tl tl_r))
                     in (case quoted of
                           Some m \<Rightarrow> Some m
                         | None \<Rightarrow>
                             let v = takeWhile (\<lambda>c. c \<noteq> CHR '';'') after_eq
                             in if v = [] then None
                                else Some ((key, v),
                                           dropWhile (\<lambda>c. c \<noteq> CHR '';'') after_eq))))"

lemma match_attribute_shorter:
  assumes "match_attribute s = Some (kv, rest)"
  shows "length rest < length s"
proof -
  let ?P = "\<lambda>c. c \<noteq> CHR ''='' \<and> c \<noteq> CHR '';''"
  have h1: "length (dropWhile Q xs) \<le> Suc (length xs)" for Q and xs :: string
    using length_dropWhile_le[of Q xs] by simp
  have h2: "length (dropWhile Q xs) - Suc 0 \<le> Suc (length xs)" for Q and xs :: string
    using length_dropWhile_le[of Q xs] by simp
  from assms have "\<exists>after_eq. dropWhile ?P s = CHR ''='' # after_eq
      \<and> length rest \<le> length after_eq"
    unfolding match_attribute_def Let_def
    by (auto simp: h1 h2 split: list.splits if_splits option.splits)
  then obtain after_eq where s: "dropWhile ?P s = CHR ''='' # after_eq"
    and r: "length rest \<le> length after_eq"
    by blast
  have "length (dropWhile ?P s) \<le> length s" by (rule length_dropWhile_le)
  with s r show ?thesis by simp
qed

text \<open>\<open>attribute_pattern.finditer(attributes)\<close>: the matches from left to right, the search
  resuming where a match ends and one character further where none starts.\<close>

function finditer :: "string \<Rightarrow> (string \<times> string) list" where
  "finditer [] = []"
| "finditer (c # cs) =
     (case match_attribute (c # cs) of
        Some (kv, rest) \<Rightarrow> kv # finditer rest
      | None \<Rightarrow> finditer cs)"
  by pat_completeness auto
termination
  by (relation "measure length") (auto dest: match_attribute_shorter)

text \<open>The dictionary comprehension: a later match of a key replaces an earlier one.\<close>

definition attr_dict :: "string \<Rightarrow> (string \<rightharpoonup> string)" where
  "attr_dict attributes =
     map_of (rev (map (\<lambda>(k, v). (k, strip_chars (\<lambda>c. c = DQUOTE) v)) (finditer attributes)))"

text \<open>
  The dictionary appended to \<open>genes_in_range\<close>; its keys \<open>chr\<close>, \<open>start\<close> and \<open>end\<close> are
  the fields \<open>gene_chr\<close>, \<open>gene_start\<close> and \<open>gene_end\<close>.
\<close>

record gene =
  gene_id :: string
  gene_name :: "string option"
  gene_chr :: string
  gene_start :: int
  gene_end :: int

text \<open>
  The body of both loops of \<open>genes_in_region\<close> (the statements are the same in the branch
  that reads the file and in the branch that uses the cached rows): \<open>Inr None\<close> when the
  row adds nothing, \<open>Inr (Some g)\<close> when \<open>g\<close> is appended, \<open>Inl\<close> when the row raises:
  IndexError for a missing column, ValueError from \<open>int\<close>, TypeError from
  \<open>'ath:' + None\<close> when the attributes have no \<open>ID\<close>.
\<close>

definition region_row :: "string \<Rightarrow> int \<Rightarrow> int \<Rightarrow> string list \<Rightarrow> py_error + gene option" where
  "region_row chromosome start_position end_position columns =
     (if length columns > 2 \<and> columns ! 2 = ''gene'' \<and> columns ! 0 = chromosome then
        if length columns \<le> 3 then Inl IndexError
        else case py_int (columns ! 3) of
          None \<Rightarrow> Inl ValueError
        | Some start \<Rightarrow>
            if length columns \<le> 4 then Inl IndexError
            else case py_int (columns ! 4) of
              None \<Rightarrow> Inl ValueError
            | Some end \<Rightarrow>
                if (start_position \<le> start \<and> start \<le> end_position)
                   \<or> (start_position \<le> end \<and> end \<le> end_position)
                then
                  if length columns \<le> 8 then Inl IndexError
                  else let attributes = columns ! 8;
                           d = attr_dict attributes
                       in case d ''ID'' of
                            None \<Rightarrow> Inl TypeError
                          | Some ident \<Rightarrow>
                              Inr (Some \<lparr>gene_id = ''ath:'' @ ident,
                                         gene_name = d ''Name'',
                                         gene_chr = columns ! 0,
                                         gene_start = start,
                                         gene_end = end\<rparr>)
                else Inr None
      else Inr None)"

text \<open>
  The first branch: the lines of the feature file are read, comment lines skipped, every
  other line split into columns, appended to \<open>self.GFF_file\<close> and then examined. The
  state returned with the result is \<open>self.GFF_file\<close>; it keeps the rows appended before
  an exception.
\<close>

fun read_and_scan ::
  "string \<Rightarrow> int \<Rightarrow> int \<Rightarrow> string list \<Rightarrow> string list list \<Rightarrow> gene list
   \<Rightarrow> (py_error + gene list) \<times> string list list" where
  "read_and_scan chromosome sp ep [] gff genes_in_range = (Inr genes_in_range, gff)"
| "read_and_scan chromosome sp ep (line # file) gff genes_in_range =
     (if startswith line ''#'' then read_and_scan chromosome sp ep file gff genes_in_range
      else let columns = py_split TAB (py_strip line);
               gff = gff @ [columns]
           in case region_row chromosome sp ep columns of
                Inl e \<Rightarrow> (Inl e, gff)
              | Inr None \<Rightarrow> read_and_scan chromosome sp ep file gff genes_in_range
              | Inr (Some g) \<Rightarrow>
                  read_and_scan chromosome sp ep file gff (genes_in_range @ [g]))"

text \<open>The second branch: the loop over the rows cached in \<open>self.GFF_file\<close>.\<close>

fun scan_cached ::
  "string \<Rightarrow> int \<Rightarrow> int \<Rightarrow> string list list \<Rightarrow> gene list \<Rightarrow> py_error + gene list" where
  "scan_cached chromosome sp ep [] genes_in_range = Inr genes_in_range"
| "scan_cached chromosome sp ep (columns # rows) genes_in_range =
     (case region_row chromosome sp ep columns of
        Inl e \<Rightarrow> Inl e
      | Inr None \<Rightarrow> scan_cached chromosome sp ep rows genes_in_range
      | Inr (Some g) \<Rightarrow> scan_cached chromosome sp ep rows (genes_in_range @ [g]))"

text \<open>
  \<open>GenesInRegion.genes_in_region\<close>: \<open>GFF_file\<close> is the attribute of the object before the
  call, \<open>file\<close> the lines of the decompressed feature file, each with its line end.
\<close>

definition genes_in_region ::
  "string list list \<Rightarrow> string list \<Rightarrow> int \<Rightarrow> int \<Rightarrow> int
   \<Rightarrow> (py_error + gene list) \<times> string list list" where
  "genes_in_region GFF_file file chromosome start_position end_position =
     (let chromosome = ''Chr'' @ str_int chromosome
      in if GFF_file = []
         then read_and_scan chromosome start_position end_position file GFF_file []
         else (scan_cached chromosome start_position end_position GFF_file [], GFF_file))"

text \<open>
  What the properties of \<open>genes_in_region\<close> speak about: the rows the first branch reads
  from the file, the test that selects a gene feature of a chromosome, the coordinates
  and the dictionary of a feature row, and the rows for which no statement of the loop
  body raises.
\<close>

definition rows_read :: "string list \<Rightarrow> string list list" where
  "rows_read file =
     map (\<lambda>line. py_split TAB (py_strip line)) (filter (\<lambda>line. \<not> startswith line ''#'') file)"

definition gene_feature :: "string \<Rightarrow> string list \<Rightarrow> bool" where
  "gene_feature chromosome columns =
     (length columns > 2 \<and> columns ! 2 = ''gene'' \<and> columns ! 0 = chromosome)"

definition feature_start :: "string list \<Rightarrow> int" where
  "feature_start columns = the (py_int (columns ! 3))"

definition feature_end :: "string list \<Rightarrow> int" where
  "feature_end columns = the (py_int (columns ! 4))"

definition feature_gene :: "string list \<Rightarrow> gene" where
  "feature_gene columns =
     \<lparr>gene_id = ''ath:'' @ the (attr_dict (columns ! 8) ''ID''),
      gene_name = attr_dict (columns ! 8) ''Name'',
      gene_chr = columns ! 0,
      gene_start = feature_start columns,
      gene_end = feature_end columns\<rparr>"

definition well_formed_feature :: "string list \<Rightarrow> bool" where
  "well_formed_feature columns =
     (length columns \<ge> 9 \<and> py_int (columns ! 3) \<noteq> None \<and> py_int (columns ! 4) \<noteq> None
      \<and> attr_dict (columns ! 8) ''ID'' \<noteq> None)"

section \<open>The remote service\<close>

text \<open>
  \<open>requests.get\<close> and \<open>time.sleep\<close> act on the world, which is the trace of the events
  so far. The service is any function of the requests made before and of the URL, so a
  stub that fails twice and then succeeds is a server as well as one that always fails.
  A response carries \<open>status_code\<close> and \<open>text\<close> (the field \<open>resp_text\<close>). Exceptions
  of the transport itself and the lines printed are outside the model.
\<close>

record response =
  status_code :: int
  resp_text :: string

datatype event = Get string | Sleep nat

type_synonym server = "event list \<Rightarrow> string \<Rightarrow> response"

definition requests_get :: "server \<Rightarrow> string \<Rightarrow> event list \<Rightarrow> response \<times> event list" where
  "requests_get srv url trace = (srv trace url, trace @ [Get url])"

definition time_sleep :: "nat \<Rightarrow> event list \<Rightarrow> event list" where
  "time_sleep seconds trace = trace @ [Sleep seconds]"

fun is_get :: "event \<Rightarrow> bool" where
  "is_get (Get url) = True"
| "is_get (Sleep seconds) = False"

text \<open>The number of times the fetch capability was invoked in a trace.\<close>

definition fetches :: "event list \<Rightarrow> nat" where
  "fetches trace = length (filter is_get trace)"

section \<open>GenesInPath.py\<close>

text \<open>\<open>get_response\<close>: the loop \<open>while retries < max_retries\<close> with \<open>max_retries = 3\<close>, from
  the value of \<open>retries\<close> on.\<close>

function get_response_loop ::
  "server \<Rightarrow> string \<Rightarrow> nat \<Rightarrow> event list \<Rightarrow> response option \<times> event list" where
  "get_response_loop srv url retries trace =
     (if retries < 3 then
        (case requests_get srv url trace of
           (response, trace) \<Rightarrow>
             if status_code response = 200 then (Some response, trace)
             else get_response_loop srv url (retries + 1) (time_sleep 1 trace))
      else (None, trace))"
  by pat_completeness auto
termination
  by (relation "measure (\<lambda>(srv, url, retries, trace). 3 - retries)") auto

declare get_response_loop.simps [simp del]

definition get_response :: "server \<Rightarrow> string \<Rightarrow> event list \<Rightarrow> response option \<times> event list" where
  "get_response srv url trace = get_response_loop srv url 0 trace"

text \<open>The inner loop of \<open>get_genes_for_pathways\<close>: the stripped second column of every line
  that has more than one column.\<close>

definition second_columns :: "string list \<Rightarrow> string list" where
  "second_columns lines =
     map (\<lambda>line. py_strip (py_split TAB line ! 1))
       (filter (\<lambda>line. length (py_split TAB line) > 1) lines)"

text \<open>\<open>get_genes_for_pathways\<close>: the loop over \<open>pathway_list\<close>, on the dictionary \<open>genes\<close>.\<close>

fun genes_for_pathways_loop ::
  "server \<Rightarrow> string list \<Rightarrow> (string \<rightharpoonup> string list) \<Rightarrow> event list
   \<Rightarrow> (string \<rightharpoonup> string list) \<times> event list" where
  "genes_for_pathways_loop srv [] genes trace = (genes, trace)"
| "genes_for_pathways_loop srv (pathway_id # pathway_list) genes trace =
     (if startswith pathway_id ''path:map011'' \<or> startswith pathway_id ''path:map012''
      then genes_for_pathways_loop srv pathway_list genes trace
      else
        let pathway_ath = ''ath'' @ drop 8 pathway_id;
            pathway_url = ''https://rest.kegg.jp/link/ath/'' @ pathway_ath
        in case get_response srv pathway_url trace of
             (None, trace) \<Rightarrow> genes_for_pathways_loop srv pathway_list genes trace
           | (Some response, trace) \<Rightarrow>
               let text_data = resp_text response;
                   lines = py_split NL (py_strip text_data);
                   genes = genes(pathway_id \<mapsto> second_columns lines);
                   genes = (if the (genes pathway_id) = [] then genes(pathway_id := None)
                            else genes)
               in genes_for_pathways_loop srv pathway_list genes trace)"

definition get_genes_for_pathways ::
  "server \<Rightarrow> string list \<Rightarrow> event list \<Rightarrow> (string \<rightharpoonup> string list) \<times> event list" where
  "get_genes_for_pathways srv pathway_list trace =
     genes_for_pathways_loop srv pathway_list Map.empty trace"

section \<open>GetEnzymesForGene.py\<close>

text \<open>The list comprehension of \<open>get_enzymes_for_gene\<close> over the lines that are not blank:
  \<open>line.split('\t')[1]\<close> raises IndexError on a line without a tab.\<close>

fun enzyme_ids_of :: "string list \<Rightarrow> py_error + string list" where
  "enzyme_ids_of [] = Inr []"
| "enzyme_ids_of (line # lines) =
     (let columns = py_split TAB line
      in if length columns \<le> 1 then Inl IndexError
         else (case enzyme_ids_of lines of
                 Inl e \<Rightarrow> Inl e
               | Inr ids \<Rightarrow> Inr (last (py_split (CHR '':'') (columns ! 1)) # ids)))"

text \<open>\<open>get_enzymes_for_gene\<close>: one request for the gene id (the argument \<open>gene\<close>);
  \<open>Inr None\<close> is the \<open>None\<close> returned on a status other than 200.\<close>

definition get_enzymes_for_gene ::
  "server \<Rightarrow> string \<Rightarrow> event list \<Rightarrow> (py_error + string list option) \<times> event list" where
  "get_enzymes_for_gene srv gene trace =
     (let url = ''http://rest.kegg.jp/link/enzyme/'' @ gene
      in case requests_get srv url trace of
           (response, trace) \<Rightarrow>
             if status_code response = 200
             then (case enzyme_ids_of (filter (\<lambda>line. py_strip line \<noteq> [])
                                         (py_split NL (resp_text response))) of
                     Inl e \<Rightarrow> (Inl e, trace)
                   | Inr enzyme_ids \<Rightarrow> (Inr (Some enzyme_ids), trace))
             else (Inr None, trace))"

text \<open>\<open>ReadResults_to_enzymes.py\<close> has its own \<open>get_enzymes_for_gene\<close>: the same
  function with a sleep of one second after the request.\<close>

definition ReadResults_get_enzymes_for_gene ::
  "server \<Rightarrow> string \<Rightarrow> event list \<Rightarrow> (py_error + string list option) \<times> event list" where
  "ReadResults_get_enzymes_for_gene srv gene trace =
     (let url = ''http://rest.kegg.jp/link/enzyme/'' @ gene
      in case requests_get srv url trace of
           (response, trace) \<Rightarrow>
             let trace = time_sleep 1 trace
             in if status_code response = 200
                then (case enzyme_ids_of (filter (\<lambda>line. py_strip line \<noteq> [])
                                            (py_split NL (resp_text response))) of
                        Inl e \<Rightarrow> (Inl e, trace)
                      | Inr enzyme_ids \<Rightarrow> (Inr (Some enzyme_ids), trace))
                else (Inr None, trace))"

section \<open>Pathways.py\<close>

text \<open>
  \<open>urllib.parse.quote\<close> with its default \<open>safe='/'\<close>: letters, digits and \<open>_.-~/\<close> stay,
  every other byte becomes \<open>%XX\<close> in upper-case hexadecimal.
\<close>

definition quote_safe :: "char \<Rightarrow> bool" where
  "quote_safe c =
     (let n = (of_char c :: nat)
      in (48 \<le> n \<and> n \<le> 57) \<or> (65 \<le> n \<and> n \<le> 90) \<or> (97 \<le> n \<and> n \<le> 122)
         \<or> c \<in> set ''_.-~/'')"

definition hex_digit :: "nat \<Rightarrow> char" where
  "hex_digit n = ''0123456789ABCDEF'' ! n"

definition quote :: "string \<Rightarrow> string" where
  "quote s =
     concat (map (\<lambda>c. if quote_safe c then [c]
                       else [CHR ''%'', hex_digit (of_char c div 16), hex_digit (of_char c mod 16)])
               s)"

text \<open>
  The block that \<open>get_kegg_pathways\<close> runs for the search URL and again for every pathway
  URL: the request, and when its status is not 200 the loop
  \<open>while t < 3 and response.status_code != 200\<close> that requests again. There is no sleep.
\<close>

function retry_while ::
  "server \<Rightarrow> string \<Rightarrow> nat \<Rightarrow> response \<Rightarrow> event list \<Rightarrow> response \<times> event list" where
  "retry_while srv url t response trace =
     (if t < 3 \<and> status_code response \<noteq> 200
      then (case requests_get srv url trace of
              (response, trace) \<Rightarrow> retry_while srv url (t + 1) response trace)
      else (response, trace))"
  by pat_completeness auto
termination
  by (relation "measure (\<lambda>(srv, url, t, response, trace). 3 - t)") auto

declare retry_while.simps [simp del]

definition get_with_retries :: "server \<Rightarrow> string \<Rightarrow> event list \<Rightarrow> response \<times> event list" where
  "get_with_retries srv url trace =
     (case requests_get srv url trace of
        (response, trace) \<Rightarrow>
          if status_code response \<noteq> 200 then retry_while srv url 0 response trace
          else (response, trace))"

text \<open>The two reserved prefixes of the global and overview maps.\<close>

definition overview :: "string \<Rightarrow> bool" where
  "overview pathway_id =
     (startswith pathway_id ''path:map011'' \<or> startswith pathway_id ''path:map012'')"

text \<open>The loop over \<open>resp_lines\<close>: the second column of every line with a tab, unless it
  starts with a prefix of the global and overview maps.\<close>

definition pathway_ids_of :: "string list \<Rightarrow> string list" where
  "pathway_ids_of resp_lines =
     filter (\<lambda>pathway_id. \<not> startswith pathway_id ''path:map011''
                          \<and> \<not> startswith pathway_id ''path:map012'')
       (map (\<lambda>r_line. py_split TAB r_line ! 1) (filter (\<lambda>r_line. TAB \<in> set r_line) resp_lines))"

text \<open>
  \<open>get_kegg_pathways\<close> returns the list \<open>[]\<close> on a failed search and \<open>set(pathways)\<close>
  otherwise; the caller tests the value for truth and copies its members.
\<close>

datatype pathways_result = PyList "string list" | PySet "string set"

fun truthy :: "pathways_result \<Rightarrow> bool" where
  "truthy (PyList xs) = (xs \<noteq> [])"
| "truthy (PySet S) = (S \<noteq> {})"

fun members :: "pathways_result \<Rightarrow> string set" where
  "members (PyList xs) = set xs"
| "members (PySet S) = S"

text \<open>
  The loop over the lines of the search result, from the value of \<open>pathways\<close> on.
  Unpacking \<open>line.split("\t")\<close> into two names raises ValueError unless the line has
  exactly one tab. \<open>finder\<close> is the compiled pattern as a test on the names.
\<close>

fun compound_lines ::
  "server \<Rightarrow> (string \<Rightarrow> bool) \<Rightarrow> string list \<Rightarrow> string list \<Rightarrow> event list
   \<Rightarrow> (py_error + pathways_result) \<times> event list" where
  "compound_lines srv finder [] pathways trace = (Inr (PySet (set pathways)), trace)"
| "compound_lines srv finder (line # lines) pathways trace =
     (case py_split TAB line of
        [compound_id, compound_names] \<Rightarrow>
          if finder compound_names then
            let pathway_url = ''http://rest.kegg.jp/'' @ ''link/pathway/'' @ compound_id
            in case get_with_retries srv pathway_url trace of
                 (response, trace) \<Rightarrow>
                   if status_code response \<noteq> 200 then (Inr (PySet (set pathways)), trace)
                   else
                     let resp_lines = py_split NL (py_strip (resp_text response))
                     in compound_lines srv finder lines
                          (pathways @ pathway_ids_of resp_lines) trace
          else compound_lines srv finder lines pathways trace
      | _ \<Rightarrow> (Inl ValueError, trace))"

text \<open>
  \<open>get_kegg_pathways\<close>. The regular expression is built from the compound name itself, so
  the library is a parameter: \<open>re_compile compound_name\<close> is \<open>None\<close> when \<open>re.compile\<close>
  raises on the pattern \<open>(?<![\w-])(?:[LD]-)?{compound_name}\b(?!-)\<close>, and otherwise the
  test \<open>re.search(pattern, names)\<close> of the compiled case-insensitive pattern.
\<close>

definition get_kegg_pathways ::
  "server \<Rightarrow> (string \<Rightarrow> (string \<Rightarrow> bool) option) \<Rightarrow> string \<Rightarrow> event list
   \<Rightarrow> (py_error + pathways_result) \<times> event list" where
  "get_kegg_pathways srv re_compile compound_name trace =
     (let base_url = ''http://rest.kegg.jp/'';
          encoded_compound_name = quote compound_name;
          search_url = base_url @ ''find/compound/'' @ encoded_compound_name
      in case get_with_retries srv search_url trace of
           (response, trace) \<Rightarrow>
             if status_code response \<noteq> 200 then (Inr (PyList []), trace)
             else
               let lines = py_split NL (py_strip (resp_text response))
               in if lines = [] then (Inr (PyList []), trace)
                  else (case re_compile compound_name of
                          None \<Rightarrow> (Inl ReError, trace)
                        | Some finder \<Rightarrow> compound_lines srv finder lines [] trace))"

subsection \<open>The batch run\<close>

text \<open>
  The script body. A Python set is the list of its elements in the order the loop visits
  them, which Python leaves open: the model visits \<open>set(trait_df.iloc[:, 1])\<close> in the
  order of first occurrence and the failed compounds in the order they were added. The
  compounds are strings. \<open>failed_compounds.add\<close>:
\<close>

definition set_add :: "string \<Rightarrow> string list \<Rightarrow> string list" where
  "set_add x xs = (if x \<in> set xs then xs else xs @ [x])"

text \<open>
  The loop \<open>for kegg_comp in compounds_to_process\<close>, on \<open>failed_compounds\<close> and
  \<open>path_dict\<close>; \<open>path_dict\<close> keeps the members of the result, whose order as a list is
  open as well. An exception of \<open>get_kegg_pathways\<close> leaves the script.
\<close>

fun process_compounds ::
  "server \<Rightarrow> (string \<Rightarrow> (string \<Rightarrow> bool) option) \<Rightarrow> string list \<Rightarrow> string list
   \<Rightarrow> (string \<rightharpoonup> string set) \<Rightarrow> event list
   \<Rightarrow> (py_error + string list \<times> (string \<rightharpoonup> string set)) \<times> event list" where
  "process_compounds srv re_compile [] failed_compounds path_dict trace =
     (Inr (failed_compounds, path_dict), trace)"
| "process_compounds srv re_compile (kegg_comp # rest) failed_compounds path_dict trace =
     (case get_kegg_pathways srv re_compile kegg_comp trace of
        (Inl e, trace) \<Rightarrow> (Inl e, trace)
      | (Inr pathways, trace) \<Rightarrow>
          if truthy pathways
          then process_compounds srv re_compile rest failed_compounds
                 (path_dict(kegg_comp \<mapsto> members pathways)) trace
          else process_compounds srv re_compile rest (set_add kegg_comp failed_compounds)
                 path_dict trace)"

text \<open>
  The variables of the script that the \<open>while\<close> loop reads and writes. \<open>rounds\<close> is not
  in the source: it counts the iterations of the loop that have run.
\<close>

record run_state =
  failed_compounds :: "string list"
  consecutive_failures :: nat
  run_for_all_traits :: bool
  path_dict :: "string \<rightharpoonup> string set"
  rounds :: nat

definition initial_state :: run_state where
  "initial_state =
     \<lparr>failed_compounds = [], consecutive_failures = 0, run_for_all_traits = True,
      path_dict = Map.empty, rounds = 0\<rparr>"

lemma process_compounds_failed_length:
  assumes "process_compounds srv re_compile cs failed pd trace = (Inr (failed', pd'), trace')"
  shows "length failed' \<le> length failed + length cs
       \<and> (length failed' = length failed + length cs \<longrightarrow> set failed' = set failed \<union> set cs)"
  using assms
proof (induction cs arbitrary: failed pd trace)
  case Nil
  then show ?case by simp
next
  case (Cons c cs)
  obtain r t where g: "get_kegg_pathways srv re_compile c trace = (r, t)"
    by (cases "get_kegg_pathways srv re_compile c trace")
  show ?case
  proof (cases r)
    case (Inl e)
    with Cons.prems g show ?thesis by simp
  next
    case (Inr pathways)
    show ?thesis
    proof (cases "truthy pathways")
      case True
      with Cons.prems g Inr
      have "process_compounds srv re_compile cs failed (pd(c \<mapsto> members pathways)) t
              = (Inr (failed', pd'), trace')"
        by simp
      from Cons.IH[OF this] show ?thesis by auto
    next
      case False
      with Cons.prems g Inr
      have "process_compounds srv re_compile cs (set_add c failed) pd t
              = (Inr (failed', pd'), trace')"
        by simp
      from Cons.IH[OF this] show ?thesis by (auto simp: set_add_def split: if_splits)
    qed
  qed
qed

text \<open>
  The loop \<open>while consecutive_failures <= 3\<close>. It ends: a round either fails on every
  compound it processed, which adds one to the counter, or leaves fewer compounds for
  the next round.
\<close>

function main_loop ::
  "server \<Rightarrow> (string \<Rightarrow> (string \<Rightarrow> bool) option) \<Rightarrow> string list \<Rightarrow> run_state \<Rightarrow> event list
   \<Rightarrow> (py_error + run_state) \<times> event list" where
  "main_loop srv re_compile traits st trace =
     (if consecutive_failures st \<le> 3 then
        let compounds_to_process =
              (if run_for_all_traits st then remdups traits else failed_compounds st)
        in case process_compounds srv re_compile compounds_to_process [] (path_dict st) trace of
             (Inl e, trace) \<Rightarrow> (Inl e, trace)
           | (Inr (failed, pd), trace) \<Rightarrow>
               main_loop srv re_compile traits
                 \<lparr>failed_compounds = failed,
                  consecutive_failures =
                    (if set failed = set compounds_to_process
                     then consecutive_failures st + 1 else 0),
                  run_for_all_traits = False,
                  path_dict = pd,
                  rounds = rounds st + 1\<rparr>
                 trace
      else (Inr st, trace))"
  by pat_completeness auto
termination
proof (relation "(\<lambda>(srv, re_compile, traits, st, trace).
          if run_for_all_traits st then length (remdups traits) + 1
          else length (failed_compounds st)) <*mlex*>
        measure (\<lambda>(srv, re_compile, traits, st, trace). 4 - consecutive_failures st)",
       goal_cases)
  case 1
  show ?case by (simp add: wf_mlex)
next
  case (2 srv re_compile traits st trace to_process x1 trace' x2 failed pd)
  then have "process_compounds srv re_compile to_process [] (path_dict st) trace
      = (Inr (failed, pd), trace')"
    by simp
  from process_compounds_failed_length[OF this]
  have len: "length failed \<le> length to_process"
    and eq: "length failed = length to_process \<longrightarrow> set failed = set to_process"
    by simp_all
  show ?case
  proof (cases "set failed = set to_process")
    case True
    with 2 len show ?thesis
      by (auto simp: mlex_iff split: if_splits)
  next
    case False
    with eq len have "length failed < length to_process" by linarith
    with 2 False show ?thesis
      by (auto simp: mlex_iff split: if_splits)
  qed
qed

declare main_loop.simps [simp del]

section \<open>main.py: the statistical test\<close>

text \<open>
  A row of \<open>merged_df\<close> after the merge and \<open>fillna(0)\<close>, with integer counts, and the row
  with the three columns the test adds. \<open>scipy.stats.fisher_exact\<close> and
  \<open>statsmodels\<close>' \<open>multipletests\<close> compute in floating point and are parameters:
  \<open>fisher_exact a b c d\<close> is the pair (odds ratio, p-value) of the two-sided test on the
  table \<open>[[a, b], [c, d]]\<close>, \<open>multipletests p_values\<close> the pair (reject, adjusted p-values)
  of the method \<open>fdr_bh\<close>. \<open>fisher_exact\<close> raises ValueError on a negative entry, and the
  assignment of a column of another length than the frame raises ValueError.
\<close>

record count_row =
  Compound :: string
  mQTL_Gene_Counts :: int
  map_Gene_Counts :: int
  Gene_Count :: int

record tested_row = count_row +
  Total_Genes :: int
  Fisher_Exact_p_value :: real
  Adj_p_value :: real

text \<open>The loop \<open>for index, row in merged_df.iterrows()\<close>, on the list \<open>p_values\<close>.\<close>

fun p_values_loop ::
  "(int \<Rightarrow> int \<Rightarrow> int \<Rightarrow> int \<Rightarrow> real \<times> real) \<Rightarrow> int \<Rightarrow> count_row list \<Rightarrow> real list
   \<Rightarrow> py_error + real list" where
  "p_values_loop fisher_exact total_genes [] p_values = Inr p_values"
| "p_values_loop fisher_exact total_genes (row # rows) p_values =
     (let a = map_Gene_Counts row;
          b = total_genes - map_Gene_Counts row;
          c = Gene_Count row;
          d = mQTL_Gene_Counts row - Gene_Count row
      in if a < 0 \<or> b < 0 \<or> c < 0 \<or> d < 0 then Inl ValueError
         else (case fisher_exact a b c d of
                 (oddsratio, p_value) \<Rightarrow>
                   p_values_loop fisher_exact total_genes rows (p_values @ [p_value])))"

definition statistical_test ::
  "(int \<Rightarrow> int \<Rightarrow> int \<Rightarrow> int \<Rightarrow> real \<times> real) \<Rightarrow> (real list \<Rightarrow> bool list \<times> real list)
   \<Rightarrow> count_row list \<Rightarrow> py_error + tested_row list" where
  "statistical_test fisher_exact multipletests merged_df =
     (let total_genes = 27533 - 231
      in case p_values_loop fisher_exact total_genes merged_df [] of
           Inl e \<Rightarrow> Inl e
         | Inr p_values \<Rightarrow>
             (case multipletests p_values of
                (reject, adjusted_p_values) \<Rightarrow>
                  if length adjusted_p_values \<noteq> length merged_df then Inl ValueError
                  else Inr (map (\<lambda>(row, p_value, adjusted).
                                   count_row.extend row
                                     \<lparr>Total_Genes = total_genes,
                                      Fisher_Exact_p_value = p_value,
                                      Adj_p_value = adjusted\<rparr>)
                              (zip merged_df (zip p_values adjusted_p_values)))))"

text \<open>The p-value of the table that the statistical test builds for a row, with the gene
  universe written as the number 27302.\<close>

definition table_p_value ::
  "(int \<Rightarrow> int \<Rightarrow> int \<Rightarrow> int \<Rightarrow> real \<times> real) \<Rightarrow> count_row \<Rightarrow> real" where
  "table_p_value fisher_exact row =
     snd (fisher_exact (map_Gene_Counts row) (27302 - map_Gene_Counts row)
            (Gene_Count row) (mQTL_Gene_Counts row - Gene_Count row))"

section \<open>Example data\<close>

text \<open>A study with one trait whose profile has three local maxima, and one trait whose
  scores rise from marker to marker.\<close>

definition demo_row :: series where
  "demo_row =
     [(''m0'', 1), (''m1'', - 5), (''m2'', 2), (''m3'', 9), (''m4'', 3), (''m5'', - 7), (''m6'', 1)]"

definition demo_markers :: "marker_row list" where
  "demo_markers =
     map (\<lambda>(l, p). \<lparr>row_label = StrCell l, marker_chr = 1, marker_start = p, other_cells = []\<rparr>)
       [(''m0'', 10000), (''m1'', 100000), (''m2'', 200000), (''m3'', 300000),
        (''m4'', 400000), (''m5'', 500000), (''m6'', 600000)]"

definition demo_study :: study where
  "demo_study =
     \<lparr>name = ''demo'',
      LOD_scores = [''t1'' \<mapsto> demo_row,
                    ''rising'' \<mapsto> [(''m0'', - 3), (''m1'', - 1), (''m2'', 2)]],
      markers = demo_markers\<rparr>"

text \<open>A feature file: a comment, three genes of chromosome 3 (one ending in the window
  50000 to 150000, one starting in it, one spanning it), a transcript, and a gene of
  chromosome 1; and a file with a gene in the window that has no \<open>ID\<close>.\<close>

definition gff_line :: "string \<Rightarrow> string \<Rightarrow> string \<Rightarrow> string \<Rightarrow> string \<Rightarrow> string" where
  "gff_line seqid feature first_base last_base attributes =
     seqid @ [TAB] @ ''Araport11'' @ [TAB] @ feature @ [TAB] @ first_base @ [TAB] @ last_base
       @ [TAB] @ ''.'' @ [TAB] @ ''+'' @ [TAB] @ ''.'' @ [TAB] @ attributes @ [NL]"

definition demo_gff :: "string list" where
  "demo_gff =
     [''##gff-version 3'' @ [NL],
      gff_line ''Chr3'' ''gene'' ''40000'' ''60000'' ''ID=AT3G01100;Name=AT3G01100'',
      gff_line ''Chr3'' ''mRNA'' ''40000'' ''60000'' ''ID=AT3G01100.1;Parent=AT3G01100'',
      gff_line ''Chr3'' ''gene'' ''60001'' ''260000'' ''ID=AT3G01200'',
      gff_line ''Chr3'' ''gene'' ''10000'' ''200000'' ''ID=AT3G01300;Name=SPAN'',
      gff_line ''Chr1'' ''gene'' ''95000'' ''105000'' ''ID=AT1G01010;Name=NAC001'']"

definition broken_gff :: "string list" where
  "broken_gff =
     [gff_line ''Chr3'' ''gene'' ''40000'' ''60000'' ''ID=AT3G01100;Name=AT3G01100'',
      gff_line ''Chr3'' ''gene'' ''70000'' ''80000'' ''Name=NOID;Note=curated'']"

text \<open>A service that answers every request with status 503.\<close>

definition always_fail :: server where
  "always_fail trace url = \<lparr>status_code = 503, resp_text = []\<rparr>"

text \<open>
  A service that knows the compound search for \<open>Glucose\<close> (two compounds), the pathways
  of the first compound (two of them overview maps) and the genes of one pathway, and
  answers 404 to everything else, so the pathways of the second compound never resolve.
\<close>

definition tsv_line :: "string \<Rightarrow> string \<Rightarrow> string" where
  "tsv_line first second = first @ [TAB] @ second @ [NL]"

definition kegg_stub :: server where
  "kegg_stub trace url =
     (if url = ''http://rest.kegg.jp/find/compound/Glucose'' then
        \<lparr>status_code = 200,
         resp_text = tsv_line ''cpd:C00031'' ''D-Glucose; Grape sugar; Dextrose; Glucose''
                     @ tsv_line ''cpd:C00221'' ''beta-D-Glucose; Glucose''\<rparr>
      else if url = ''http://rest.kegg.jp/link/pathway/cpd:C00031'' then
        \<lparr>status_code = 200,
         resp_text = tsv_line ''cpd:C00031'' ''path:map00010''
                     @ tsv_line ''cpd:C00031'' ''path:map01100''
                     @ tsv_line ''cpd:C00031'' ''path:map01200''
                     @ tsv_line ''cpd:C00031'' ''path:map00052''\<rparr>
      else if url = ''https://rest.kegg.jp/link/ath/ath00010'' then
        \<lparr>status_code = 200,
         resp_text = tsv_line ''path:ath00010'' ''ath:AT1G01090''
                     @ tsv_line ''path:ath00010'' ''ath:AT1G04410''\<rparr>
      else \<lparr>status_code = 404, resp_text = []\<rparr>)"

text \<open>A stand-in for the regular expression library in the examples: the compound name
  is one of the names of the list, which semicolons separate.\<close>

definition listed_name :: "string \<Rightarrow> string \<Rightarrow> bool" where
  "listed_name compound_name names =
     (compound_name \<in> set (map py_strip (py_split (CHR '';'') names)))"

definition stub_compile :: "string \<Rightarrow> (string \<Rightarrow> bool) option" where
  "stub_compile compound_name = Some (listed_name compound_name)"

text \<open>
  Stand-ins for the two library functions in the examples; they are not the Fisher test
  and not the Benjamini-Hochberg procedure. The second one multiplies every p-value by
  the length of the vector, so its result depends on the whole batch.
\<close>

definition stand_in_fisher_exact :: "int \<Rightarrow> int \<Rightarrow> int \<Rightarrow> int \<Rightarrow> real \<times> real" where
  "stand_in_fisher_exact a b c d = (1, 1 / real_of_int (1 + a + c))"

definition stand_in_multipletests :: "real list \<Rightarrow> bool list \<times> real list" where
  "stand_in_multipletests p_values =
     (map (\<lambda>p. p * real (length p_values) < 5 / 100) p_values,
      map (\<lambda>p. p * real (length p_values)) p_values)"

definition demo_counts :: "count_row list" where
  "demo_counts =
     [\<lparr>Compound = ''Glucose'', mQTL_Gene_Counts = 40, map_Gene_Counts = 120, Gene_Count = 4\<rparr>,
      \<lparr>Compound = ''Raffinose'', mQTL_Gene_Counts = 10, map_Gene_Counts = 30, Gene_Count = 0\<rparr>]"

section \<open>Properties of peak detection\<close>

lemma peak_filter_sorted:
  "sorted_list_of_set {i. 1 \<le> i \<and> i + 2 \<le> n \<and> P i} = [i \<leftarrow> [1 ..< n - 1]. P i]"
proof -
  have "{i. 1 \<le> i \<and> i + 2 \<le> n \<and> P i} = set [i \<leftarrow> [1 ..< n - 1]. P i]" by auto
  moreover have "sorted [i \<leftarrow> [1 ..< n - 1]. P i]" by (simp add: sorted_wrt_filter)
  moreover have "distinct [i \<leftarrow> [1 ..< n - 1]. P i]" by simp
  ultimately show ?thesis by (metis sorted_list_of_set.idem_if_sorted_distinct)
qed

lemma no_peak_sorted:
  fixes a :: "real list"
  assumes "sorted a \<or> sorted (rev a)"
  shows "find_local_maxima a = []"
proof -
  have "\<not> (a ! i > a ! (i - 1) \<and> a ! i > a ! (i + 1))" if "1 \<le> i" "i + 1 < length a" for i
  proof -
    from assms show ?thesis
    proof
      assume s: "sorted a"
      have "a ! i \<le> a ! (i + 1)" using s that by (simp add: sorted_iff_nth_mono)
      then show ?thesis by linarith
    next
      assume s: "sorted (rev a)"
      have "a ! i \<le> a ! (i - 1)" using s that sorted_rev_iff_nth_mono[of a] by simp
      then show ?thesis by linarith
    qed
  qed
  then show ?thesis
    unfolding find_local_maxima_def by (auto simp: filter_empty_conv)
qed

lemma no_peak_monotone:
  fixes v :: "real list"
  assumes "sorted v \<or> sorted (rev v)"
  shows "find_local_maxima (map abs v) = []"
proof -
  have "\<not> (\<bar>v ! i\<bar> > \<bar>v ! (i - 1)\<bar> \<and> \<bar>v ! i\<bar> > \<bar>v ! (i + 1)\<bar>)"
    if "1 \<le> i" "i + 1 < length v" for i
  proof -
    from assms show ?thesis
    proof
      assume s: "sorted v"
      have "v ! (i - 1) \<le> v ! i" using s that by (simp add: sorted_iff_nth_mono)
      moreover have "v ! i \<le> v ! (i + 1)" using s that by (simp add: sorted_iff_nth_mono)
      ultimately show ?thesis by linarith
    next
      assume s: "sorted (rev v)"
      have "v ! i \<le> v ! (i - 1)" using s that sorted_rev_iff_nth_mono[of v] by simp
      moreover have "v ! (i + 1) \<le> v ! i" using s that sorted_rev_iff_nth_mono[of v] by simp
      ultimately show ?thesis by linarith
    qed
  qed
  then show ?thesis
    unfolding find_local_maxima_def by (auto simp: filter_empty_conv)
qed

lemma abs_series_values: "map snd (abs_series row) = map (\<lambda>(m, v). \<bar>v\<bar>) row"
  by (simp add: abs_series_def case_prod_unfold)

lemma abs_series_nth:
  "i < length row \<Longrightarrow> abs_series row ! i = (fst (row ! i), map (\<lambda>(m, v). \<bar>v\<bar>) row ! i)"
  by (simp add: abs_series_def case_prod_unfold)

lemma peak_indices_eq:
  "[i \<leftarrow> find_local_maxima a. Q i] =
   sorted_list_of_set {i. 1 \<le> i \<and> i + 2 \<le> length a
      \<and> (a ! i > a ! (i - 1) \<and> a ! i > a ! (i + 1) \<and> Q i)}"
  unfolding find_local_maxima_def peak_filter_sorted by simp

text \<open>
  C4. For a trait of the study, \<open>get_peak_local_max\<close> works on the absolute values \<open>a\<close> of
  the scores. With \<open>th\<close> the threshold in force, the positions it selects are, in
  ascending order, exactly the \<open>i\<close> with \<open>1 \<le> i \<le> len - 2\<close>, \<open>a[i] > a[i-1]\<close>,
  \<open>a[i] > a[i+1]\<close> and \<open>a[i] \<ge> th\<close>; it returns the scores and the marker rows at these
  positions (IndexError when the marker table is too short for one of them). When the
  scores, or their absolute values, are monotonic, no position is selected.
\<close>

theorem get_peak_local_max_local_maxima:
  assumes "LOD_scores self trait = Some row"
  shows "let a = map (\<lambda>(m, v). \<bar>v\<bar>) row;
             th = (if threshold = 0 then quantile a (95 / 100) else threshold);
             peaks = sorted_list_of_set
                {i. 1 \<le> i \<and> i + 2 \<le> length a
                    \<and> (a ! i > a ! (i - 1) \<and> a ! i > a ! (i + 1) \<and> a ! i \<ge> th)}
         in get_peak_local_max self trait threshold =
              (if \<forall>i \<in> set peaks. i < length (markers self)
               then Inr (Some (map (\<lambda>i. (fst (row ! i), a ! i)) peaks),
                         Some (map (\<lambda>i. markers self ! i) peaks))
               else Inl IndexError)
            \<and> (sorted (map snd row) \<or> sorted (rev (map snd row)) \<or> sorted a \<or> sorted (rev a)
                 \<longrightarrow> get_peak_local_max self trait threshold = Inr (Some [], Some []))"
proof -
  define a where "a = map (\<lambda>(m, v). \<bar>v\<bar>) row"
  define th where "th = (if threshold = 0 then quantile a (95 / 100) else threshold)"
  define peaks where "peaks = [i \<leftarrow> find_local_maxima a. a ! i \<ge> th]"
  have peaks_eq: "peaks = sorted_list_of_set
                {i. 1 \<le> i \<and> i + 2 \<le> length a
                    \<and> (a ! i > a ! (i - 1) \<and> a ! i > a ! (i + 1) \<and> a ! i \<ge> th)}"
    unfolding peaks_def by (rule peak_indices_eq)
  have in_range: "i < length row" if "i \<in> set peaks" for i
    using that unfolding peaks_def find_local_maxima_def a_def by auto
  have idx: "[i \<leftarrow> find_local_maxima a. snd (abs_series row ! i) \<ge> th] = peaks"
    unfolding peaks_def
    by (rule filter_cong) (auto simp: find_local_maxima_def a_def abs_series_nth)
  have lod: "map (\<lambda>i. abs_series row ! i) peaks = map (\<lambda>i. (fst (row ! i), a ! i)) peaks"
    by (rule map_cong) (auto simp: in_range abs_series_nth a_def)
  have run: "get_peak_local_max self trait threshold =
              (if \<forall>i \<in> set peaks. i < length (markers self)
               then Inr (Some (map (\<lambda>i. (fst (row ! i), a ! i)) peaks),
                         Some (map (\<lambda>i. markers self ! i) peaks))
               else Inl IndexError)"
    unfolding get_peak_local_max_def assms option.case Let_def abs_series_values
      a_def[symmetric] th_def[symmetric] idx lod
    by (rule refl)
  have mono: "get_peak_local_max self trait threshold = Inr (Some [], Some [])"
    if "sorted (map snd row) \<or> sorted (rev (map snd row)) \<or> sorted a \<or> sorted (rev a)"
  proof -
    have "a = map abs (map snd row)" by (simp add: a_def case_prod_unfold comp_def)
    then have "find_local_maxima a = []"
      using that no_peak_monotone[of "map snd row"] no_peak_sorted[of a] by auto
    then have "peaks = []" by (simp add: peaks_def)
    with run show ?thesis by simp
  qed
  show ?thesis
    using run mono unfolding Let_def a_def[symmetric] th_def[symmetric] peaks_eq[symmetric]
    by blast
qed

theorem get_peak_local_max_local_maxima_witness:
  "LOD_scores demo_study ''t1'' = Some demo_row
   \<and> get_peak_local_max demo_study ''t1'' 6 =
       (let a = map (\<lambda>(m, v). \<bar>v\<bar>) demo_row;
            peaks = sorted_list_of_set
              {i. 1 \<le> i \<and> i + 2 \<le> length a
                  \<and> (a ! i > a ! (i - 1) \<and> a ! i > a ! (i + 1) \<and> a ! i \<ge> 6)}
        in if \<forall>i \<in> set peaks. i < length (markers demo_study)
           then Inr (Some (map (\<lambda>i. (fst (demo_row ! i), a ! i)) peaks),
                     Some (map (\<lambda>i. markers demo_study ! i) peaks))
           else Inl IndexError)
   \<and> get_peak_local_max demo_study ''t1'' 6 =
       Inr (Some [(''m3'', 9), (''m5'', 7)], Some [demo_markers ! 3, demo_markers ! 5])
   \<and> sorted (map snd (the (LOD_scores demo_study ''rising'')))
   \<and> get_peak_local_max demo_study ''rising'' 1 = Inr (Some [], Some [])"
proof -
  have h: "LOD_scores demo_study ''t1'' = Some demo_row"
    by (simp add: demo_study_def)
  have r: "LOD_scores demo_study ''rising'' = Some [(''m0'', - 3), (''m1'', - 1), (''m2'', 2)]"
    by (simp add: demo_study_def)
  have s: "sorted (map snd (the (LOD_scores demo_study ''rising'')))"
    by (simp add: r)
  have v: "get_peak_local_max demo_study ''t1'' 6 =
       Inr (Some [(''m3'', 9), (''m5'', 7)], Some [demo_markers ! 3, demo_markers ! 5])"
    by (simp add: get_peak_local_max_def demo_study_def demo_row_def demo_markers_def
        abs_series_def find_local_maxima_def Let_def)
  from get_peak_local_max_local_maxima[OF h, of 6]
  have i1: "get_peak_local_max demo_study ''t1'' 6 =
       (let a = map (\<lambda>(m, v). \<bar>v\<bar>) demo_row;
            peaks = sorted_list_of_set
              {i. 1 \<le> i \<and> i + 2 \<le> length a
                  \<and> (a ! i > a ! (i - 1) \<and> a ! i > a ! (i + 1) \<and> a ! i \<ge> 6)}
        in if \<forall>i \<in> set peaks. i < length (markers demo_study)
           then Inr (Some (map (\<lambda>i. (fst (demo_row ! i), a ! i)) peaks),
                     Some (map (\<lambda>i. markers demo_study ! i) peaks))
           else Inl IndexError)"
    unfolding Let_def by simp
  have s': "sorted (map snd [(''m0'', - 3 :: real), (''m1'', - 1), (''m2'', 2)])"
    by simp
  have i2: "get_peak_local_max demo_study ''rising'' 1 = Inr (Some [], Some [])"
    using conjunct2[OF get_peak_local_max_local_maxima[OF r, of 1, unfolded Let_def]] s'
    by blast
  from h i1 v s i2 show ?thesis by blast
qed

text \<open>
  C5. For a trait of the study and the threshold 0 (the default of the argument),
  \<open>get_peak\<close> and \<open>get_peak_local_max\<close> work with the 0.95 quantile \<open>q\<close> of the absolute
  values \<open>a\<close> of the trait's scores: \<open>get_peak\<close> keeps the scores that are at least
  \<open>q\<close>; \<open>get_peak_local_max\<close> returns the scores and the marker rows at the positions
  \<open>i\<close> with \<open>1 \<le> i \<le> len - 2\<close>, \<open>a[i] > a[i-1]\<close>, \<open>a[i] > a[i+1]\<close> and \<open>a[i] \<ge> q\<close>, in
  ascending order (IndexError when the marker table is too short for one of them); and
  both return what they return when \<open>q\<close> is passed as the threshold.
\<close>

theorem default_threshold_is_quantile:
  assumes "LOD_scores self trait = Some row"
  shows "let q = quantile (map (\<lambda>(m, v). \<bar>v\<bar>) row) (95 / 100)
         in fst (get_peak self trait 0) = Some (filter (\<lambda>(m, v). v \<ge> q) (abs_series row))
          \<and> get_peak self trait 0 = get_peak self trait q
          \<and> get_peak_local_max self trait 0 = get_peak_local_max self trait q
          \<and> get_peak_local_max self trait 0 =
              (let a = map (\<lambda>(m, v). \<bar>v\<bar>) row;
                   peaks = sorted_list_of_set
                     {i. 1 \<le> i \<and> i + 2 \<le> length a
                         \<and> (a ! i > a ! (i - 1) \<and> a ! i > a ! (i + 1) \<and> a ! i \<ge> q)}
               in if \<forall>i \<in> set peaks. i < length (markers self)
                  then Inr (Some (map (\<lambda>i. (fst (row ! i), a ! i)) peaks),
                            Some (map (\<lambda>i. markers self ! i) peaks))
                  else Inl IndexError)"
proof -
  define a where "a = map (\<lambda>(m, v). \<bar>v\<bar>) row"
  define q where "q = quantile a (95 / 100)"
  define peaks where "peaks = [i \<leftarrow> find_local_maxima a. a ! i \<ge> q]"
  have peaks_eq: "peaks = sorted_list_of_set
                {i. 1 \<le> i \<and> i + 2 \<le> length a
                    \<and> (a ! i > a ! (i - 1) \<and> a ! i > a ! (i + 1) \<and> a ! i \<ge> q)}"
    unfolding peaks_def by (rule peak_indices_eq)
  have in_range: "i < length row" if "i \<in> set peaks" for i
    using that unfolding peaks_def find_local_maxima_def a_def by auto
  have idx: "[i \<leftarrow> find_local_maxima a. snd (abs_series row ! i) \<ge> q] = peaks"
    unfolding peaks_def
    by (rule filter_cong) (auto simp: find_local_maxima_def a_def abs_series_nth)
  have lod: "map (\<lambda>i. abs_series row ! i) peaks = map (\<lambda>i. (fst (row ! i), a ! i)) peaks"
    by (rule map_cong) (auto simp: in_range abs_series_nth a_def)
  have zero: "(if (0::real) = 0 then q else 0) = q" by simp
  have local_max: "get_peak_local_max self trait 0 =
              (if \<forall>i \<in> set peaks. i < length (markers self)
               then Inr (Some (map (\<lambda>i. (fst (row ! i), a ! i)) peaks),
                         Some (map (\<lambda>i. markers self ! i) peaks))
               else Inl IndexError)"
    unfolding get_peak_local_max_def assms option.case Let_def abs_series_values
      a_def[symmetric] q_def[symmetric] zero idx lod
    by (rule refl)
  have peak: "fst (get_peak self trait 0) = Some (filter (\<lambda>(m, v). v \<ge> q) (abs_series row))"
    unfolding get_peak_def assms option.case Let_def abs_series_values
      a_def[symmetric] q_def[symmetric] zero
    by simp
  have same: "get_peak self trait 0 = get_peak self trait q"
    "get_peak_local_max self trait 0 = get_peak_local_max self trait q"
    unfolding get_peak_def get_peak_local_max_def assms option.case Let_def abs_series_values
      a_def[symmetric] q_def[symmetric]
    by simp_all
  show ?thesis
    unfolding Let_def a_def[symmetric] q_def[symmetric] peaks_eq[symmetric]
    using peak same local_max by blast
qed

theorem default_threshold_is_quantile_witness:
  "LOD_scores demo_study ''t1'' = Some demo_row
   \<and> quantile (map (\<lambda>(m, v). \<bar>v\<bar>) demo_row) (95 / 100) = 42 / 5
   \<and> fst (get_peak demo_study ''t1'' 0) = Some [(''m3'', 9)]
   \<and> get_peak demo_study ''t1'' 0 = get_peak demo_study ''t1'' (42 / 5)
   \<and> get_peak_local_max demo_study ''t1'' 0 = get_peak_local_max demo_study ''t1'' (42 / 5)
   \<and> get_peak_local_max demo_study ''t1'' 0 =
       (let a = map (\<lambda>(m, v). \<bar>v\<bar>) demo_row;
            peaks = sorted_list_of_set
              {i. 1 \<le> i \<and> i + 2 \<le> length a
                  \<and> (a ! i > a ! (i - 1) \<and> a ! i > a ! (i + 1) \<and> a ! i \<ge> 42 / 5)}
        in if \<forall>i \<in> set peaks. i < length (markers demo_study)
           then Inr (Some (map (\<lambda>i. (fst (demo_row ! i), a ! i)) peaks),
                     Some (map (\<lambda>i. markers demo_study ! i) peaks))
           else Inl IndexError)
   \<and> get_peak_local_max demo_study ''t1'' 0 = Inr (Some [(''m3'', 9)], Some [demo_markers ! 3])
   \<and> get_peak_local_max demo_study ''t1'' (1 / 1000) =
       Inr (Some [(''m1'', 5), (''m3'', 9), (''m5'', 7)],
            Some [demo_markers ! 1, demo_markers ! 3, demo_markers ! 5])"
proof -
  have h: "LOD_scores demo_study ''t1'' = Some demo_row"
    by (simp add: demo_study_def)
  have q: "quantile (map (\<lambda>(m, v). \<bar>v\<bar>) demo_row) (95 / 100) = 42 / 5"
    by (simp add: quantile_def demo_row_def)
  have f: "filter (\<lambda>(m, v). v \<ge> 42 / 5) (abs_series demo_row) = [(''m3'', 9)]"
    by (simp add: abs_series_def demo_row_def)
  have v: "get_peak_local_max demo_study ''t1'' (42 / 5) =
       Inr (Some [(''m3'', 9)], Some [demo_markers ! 3])"
    by (simp add: get_peak_local_max_def demo_study_def demo_row_def demo_markers_def
        abs_series_def find_local_maxima_def Let_def)
  have w: "get_peak_local_max demo_study ''t1'' (1 / 1000) =
       Inr (Some [(''m1'', 5), (''m3'', 9), (''m5'', 7)],
            Some [demo_markers ! 1, demo_markers ! 3, demo_markers ! 5])"
    by (simp add: get_peak_local_max_def demo_study_def demo_row_def demo_markers_def
        abs_series_def find_local_maxima_def Let_def)
  note t = default_threshold_is_quantile[OF h, unfolded Let_def q f]
  from t v have e: "get_peak_local_max demo_study ''t1'' 0 =
       Inr (Some [(''m3'', 9)], Some [demo_markers ! 3])"
    by simp
  show ?thesis unfolding Let_def using h q t e w by blast
qed

text \<open>
  C9. For a trait that is not in the index of the LOD scores, \<open>get_peak\<close> and
  \<open>get_peak_local_max\<close> return the pair \<open>(None, None)\<close>; for a trait of the index neither
  does, whatever the threshold.
\<close>

theorem unknown_trait_returns_None_pair:
  "(LOD_scores self trait = None \<longrightarrow>
      get_peak self trait threshold = (None, None)
      \<and> get_peak_local_max self trait threshold = Inr (None, None))
   \<and> (LOD_scores self trait \<noteq> None \<longrightarrow>
      fst (get_peak self trait threshold) \<noteq> None
      \<and> snd (get_peak self trait threshold) \<noteq> None
      \<and> get_peak_local_max self trait threshold \<noteq> Inr (None, None))"
  by (auto simp: get_peak_def get_peak_local_max_def Let_def split: option.splits)

theorem unknown_trait_returns_None_pair_witness:
  "LOD_scores demo_study ''t9'' = None
   \<and> get_peak demo_study ''t9'' 3 = (None, None)
   \<and> get_peak_local_max demo_study ''t9'' 3 = Inr (None, None)
   \<and> LOD_scores demo_study ''rising'' \<noteq> None
   \<and> get_peak demo_study ''rising'' 100 = (Some [], Some [])
   \<and> get_peak_local_max demo_study ''rising'' 100 \<noteq> Inr (None, None)"
proof -
  have n: "LOD_scores demo_study ''t9'' = None"
    by (simp add: demo_study_def)
  have k: "LOD_scores demo_study ''rising'' \<noteq> None"
    by (simp add: demo_study_def)
  have e: "get_peak demo_study ''rising'' 100 = (Some [], Some [])"
    by (simp add: get_peak_def demo_study_def demo_markers_def abs_series_def cell_isin_def
        Let_def)
  from unknown_trait_returns_None_pair[of demo_study "''t9''" 3]
    unknown_trait_returns_None_pair[of demo_study "''rising''" 100] n k e
  show ?thesis by simp
qed

section \<open>Properties of the region query\<close>

lemma region_row_well_formed:
  assumes "gene_feature chromosome columns \<longrightarrow> well_formed_feature columns"
  shows "region_row chromosome sp ep columns =
     Inr (if gene_feature chromosome columns
             \<and> (sp \<le> feature_start columns \<and> feature_start columns \<le> ep
                \<or> sp \<le> feature_end columns \<and> feature_end columns \<le> ep)
          then Some (feature_gene columns) else None)"
  using assms
  by (auto simp: region_row_def gene_feature_def well_formed_feature_def feature_start_def
      feature_end_def feature_gene_def Let_def split: option.splits)

lemma scan_cached_well_formed:
  assumes "\<forall>columns \<in> set rows. gene_feature chromosome columns \<longrightarrow> well_formed_feature columns"
  shows "scan_cached chromosome sp ep rows acc =
     Inr (acc @ map feature_gene (filter (\<lambda>columns. gene_feature chromosome columns
             \<and> (sp \<le> feature_start columns \<and> feature_start columns \<le> ep
                \<or> sp \<le> feature_end columns \<and> feature_end columns \<le> ep)) rows))"
  using assms
proof (induction rows arbitrary: acc)
  case Nil
  then show ?case by simp
next
  case (Cons columns rows)
  then have "gene_feature chromosome columns \<longrightarrow> well_formed_feature columns" by simp
  from region_row_well_formed[OF this, of sp ep] Cons show ?case by simp
qed

lemma read_and_scan_well_formed:
  assumes "\<forall>columns \<in> set (rows_read file).
             gene_feature chromosome columns \<longrightarrow> well_formed_feature columns"
  shows "read_and_scan chromosome sp ep file gff acc =
     (Inr (acc @ map feature_gene (filter (\<lambda>columns. gene_feature chromosome columns
             \<and> (sp \<le> feature_start columns \<and> feature_start columns \<le> ep
                \<or> sp \<le> feature_end columns \<and> feature_end columns \<le> ep)) (rows_read file))),
      gff @ rows_read file)"
  using assms
proof (induction "file" arbitrary: gff acc)
  case Nil
  then show ?case by (simp add: rows_read_def)
next
  case (Cons line more)
  show ?case
  proof (cases "startswith line ''#''")
    case True
    with Cons show ?thesis by (simp add: rows_read_def)
  next
    case False
    let ?columns = "py_split TAB (py_strip line)"
    have rr: "rows_read (line # more) = ?columns # rows_read more"
      using False by (simp add: rows_read_def)
    with Cons.prems have "gene_feature chromosome ?columns \<longrightarrow> well_formed_feature ?columns"
      and rest: "\<forall>columns \<in> set (rows_read more).
             gene_feature chromosome columns \<longrightarrow> well_formed_feature columns"
      by simp_all
    from region_row_well_formed[OF this(1), of sp ep] Cons.IH[OF rest] False rr
    show ?thesis by (simp add: Let_def)
  qed
qed

text \<open>
  C1. When every gene feature of the queried chromosome among the rows examined is a row
  of nine columns with integer coordinates and an \<open>ID\<close> attribute, \<open>genes_in_region\<close>
  returns, in the order of the rows, exactly the gene features of that chromosome whose
  start lies in \<open>[start_position, end_position]\<close> or whose end lies in it, and leaves
  the rows in \<open>GFF_file\<close>. No returned gene starts below \<open>start_position\<close> and ends
  above \<open>end_position\<close>: a gene that spans the region is not returned.
\<close>

theorem genes_in_region_boundary_rule:
  assumes "rows = (if GFF_file = [] then rows_read file else GFF_file)"
    and "\<forall>columns \<in> set rows.
           gene_feature (''Chr'' @ str_int chromosome) columns \<longrightarrow> well_formed_feature columns"
  shows "\<exists>genes.
           genes_in_region GFF_file file chromosome start_position end_position = (Inr genes, rows)
         \<and> genes = map feature_gene
             (filter (\<lambda>columns. gene_feature (''Chr'' @ str_int chromosome) columns
                 \<and> (start_position \<le> feature_start columns \<and> feature_start columns \<le> end_position
                    \<or> start_position \<le> feature_end columns \<and> feature_end columns \<le> end_position))
               rows)
         \<and> (\<forall>g \<in> set genes. \<not> (gene_start g < start_position \<and> end_position < gene_end g))"
proof (cases "GFF_file = []")
  case True
  with assms have "\<forall>columns \<in> set (rows_read file).
      gene_feature (''Chr'' @ str_int chromosome) columns \<longrightarrow> well_formed_feature columns"
    by simp
  from read_and_scan_well_formed[OF this, of start_position end_position "[]" "[]"] True assms(1)
  show ?thesis
    by (auto simp: genes_in_region_def feature_gene_def)
next
  case False
  with assms have "\<forall>columns \<in> set GFF_file.
      gene_feature (''Chr'' @ str_int chromosome) columns \<longrightarrow> well_formed_feature columns"
    by simp
  from scan_cached_well_formed[OF this, of start_position end_position "[]"] False assms(1)
  show ?thesis
    by (auto simp: genes_in_region_def feature_gene_def)
qed

theorem genes_in_region_boundary_rule_witness:
  "genes_in_region [] demo_gff 3 50000 150000 =
     (Inr [\<lparr>gene_id = ''ath:AT3G01100'', gene_name = Some ''AT3G01100'', gene_chr = ''Chr3'',
            gene_start = 40000, gene_end = 60000\<rparr>,
           \<lparr>gene_id = ''ath:AT3G01200'', gene_name = None, gene_chr = ''Chr3'',
            gene_start = 60001, gene_end = 260000\<rparr>],
      rows_read demo_gff)"
proof -
  have wf: "\<forall>columns \<in> set (rows_read demo_gff).
      gene_feature (''Chr'' @ str_int 3) columns \<longrightarrow> well_formed_feature columns"
    by code_simp
  have rows: "rows_read demo_gff = (if ([] :: string list list) = [] then rows_read demo_gff else [])"
    by simp
  have sel: "map feature_gene
             (filter (\<lambda>columns. gene_feature (''Chr'' @ str_int 3) columns
                 \<and> (50000 \<le> feature_start columns \<and> feature_start columns \<le> 150000
                    \<or> 50000 \<le> feature_end columns \<and> feature_end columns \<le> 150000))
               (rows_read demo_gff))
      = [\<lparr>gene_id = ''ath:AT3G01100'', gene_name = Some ''AT3G01100'', gene_chr = ''Chr3'',
            gene_start = 40000, gene_end = 60000\<rparr>,
           \<lparr>gene_id = ''ath:AT3G01200'', gene_name = None, gene_chr = ''Chr3'',
            gene_start = 60001, gene_end = 260000\<rparr>]"
    by code_simp
  from genes_in_region_boundary_rule[OF rows wf, of 50000 150000] sel
  show ?thesis by auto
qed

lemma scan_cached_raises:
  assumes "columns \<in> set rows" and "region_row chromosome sp ep columns = Inl e"
  shows "\<exists>e'. scan_cached chromosome sp ep rows acc = Inl e'"
  using assms
  by (induction rows arbitrary: acc) (auto split: sum.splits option.splits)

lemma read_and_scan_raises:
  assumes "columns \<in> set (rows_read file)" and "region_row chromosome sp ep columns = Inl e"
  shows "\<exists>e'. fst (read_and_scan chromosome sp ep file gff acc) = Inl e'"
  using assms
  by (induction "file" arbitrary: gff acc)
     (auto simp: rows_read_def Let_def split: sum.splits option.splits)

text \<open>
  C8. When a row examined is a gene feature of the queried chromosome with coordinates
  in the region and its attribute column has no \<open>ID\<close>, the row raises TypeError
  (\<open>'ath:' + None\<close>) and the call of \<open>genes_in_region\<close> ends with an exception: it
  returns no gene list, and no gene id is made up.
\<close>

theorem genes_in_region_missing_ID_raises:
  assumes "rows = (if GFF_file = [] then rows_read file else GFF_file)"
    and "columns \<in> set rows"
    and "gene_feature (''Chr'' @ str_int chromosome) columns"
    and "length columns \<ge> 9"
    and "py_int (columns ! 3) = Some s" and "py_int (columns ! 4) = Some e"
    and "start_position \<le> s \<and> s \<le> end_position \<or> start_position \<le> e \<and> e \<le> end_position"
    and "attr_dict (columns ! 8) ''ID'' = None"
  shows "region_row (''Chr'' @ str_int chromosome) start_position end_position columns
           = Inl TypeError
       \<and> (\<exists>err. fst (genes_in_region GFF_file file chromosome start_position end_position)
                  = Inl err)"
proof -
  have row: "region_row (''Chr'' @ str_int chromosome) start_position end_position columns
           = Inl TypeError"
    using assms(3-8) by (auto simp: region_row_def gene_feature_def Let_def)
  show ?thesis
  proof (cases "GFF_file = []")
    case True
    with assms(1,2) have "columns \<in> set (rows_read file)" by simp
    from read_and_scan_raises[OF this row] True row show ?thesis
      by (simp add: genes_in_region_def)
  next
    case False
    with assms(1,2) have "columns \<in> set GFF_file" by simp
    from scan_cached_raises[OF this row] False row show ?thesis
      by (simp add: genes_in_region_def)
  qed
qed


theorem genes_in_region_missing_ID_raises_witness:
  "attr_dict (py_split TAB (py_strip (broken_gff ! 1)) ! 8) ''ID'' = None
   \<and> region_row (''Chr'' @ str_int 3) 50000 150000 (py_split TAB (py_strip (broken_gff ! 1)))
       = Inl TypeError
   \<and> (\<exists>err. fst (genes_in_region [] broken_gff 3 50000 150000) = Inl err)
   \<and> fst (genes_in_region [] broken_gff 3 50000 150000) = Inl TypeError"
proof -
  let ?columns = "py_split TAB (py_strip (broken_gff ! 1))"
  have rows: "rows_read broken_gff = (if ([] :: string list list) = [] then rows_read broken_gff else [])"
    by simp
  have a1: "?columns \<in> set (rows_read broken_gff)" by code_simp
  have a2: "gene_feature (''Chr'' @ str_int 3) ?columns" by code_simp
  have a3: "length ?columns \<ge> 9" by code_simp
  have a4: "py_int (?columns ! 3) = Some 70000" by code_simp
  have a5: "py_int (?columns ! 4) = Some 80000" by code_simp
  have a6: "(50000::int) \<le> 70000 \<and> (70000::int) \<le> 150000 \<or> (50000::int) \<le> 80000 \<and> (80000::int) \<le> 150000"
    by simp
  have a7: "attr_dict (?columns ! 8) ''ID'' = None" by code_simp
  have v: "fst (genes_in_region [] broken_gff 3 50000 150000) = Inl TypeError" by code_simp
  from genes_in_region_missing_ID_raises[OF rows a1 a2 a3 a4 a5 a6 a7] a7 v
  show ?thesis by blast
qed

section \<open>Properties of the remote lookups\<close>

lemma retry_while_failing:
  assumes "\<forall>trace url. status_code (srv trace url) \<noteq> 200"
    and "status_code response \<noteq> 200" and "t \<le> 3"
  shows "\<exists>r. retry_while srv url t response trace = (r, trace @ replicate (3 - t) (Get url))
            \<and> status_code r \<noteq> 200"
  using assms(2,3)
proof (induction "3 - t" arbitrary: t response trace)
  case 0
  then show ?case by (subst retry_while.simps) auto
next
  case (Suc k)
  then have t: "t < 3" and k: "k = 3 - (t + 1)" and le: "t + 1 \<le> 3" by simp_all
  have st: "status_code (srv trace url) \<noteq> 200" using assms(1) by simp
  from Suc.hyps(1)[OF k st le, of "trace @ [Get url]"]
  obtain r where "retry_while srv url (t + 1) (srv trace url) (trace @ [Get url])
        = (r, (trace @ [Get url]) @ replicate (3 - (t + 1)) (Get url))"
      and "status_code r \<noteq> 200"
    by blast
  moreover have "Get url # replicate (3 - (t + 1)) (Get url) = replicate (3 - t) (Get url)"
    using t by (cases "3 - t") auto
  ultimately show ?case
    using t Suc.prems by (subst retry_while.simps) (auto simp: requests_get_def)
qed

lemma get_with_retries_failing:
  assumes "\<forall>trace url. status_code (srv trace url) \<noteq> 200"
  shows "\<exists>r. get_with_retries srv url trace = (r, trace @ replicate 4 (Get url))
            \<and> status_code r \<noteq> 200"
proof -
  have st: "status_code (srv trace url) \<noteq> 200" using assms by simp
  from retry_while_failing[OF assms st, of 0 url "trace @ [Get url]"]
  obtain r where "retry_while srv url 0 (srv trace url) (trace @ [Get url])
      = (r, (trace @ [Get url]) @ replicate 3 (Get url))" and "status_code r \<noteq> 200"
    by auto
  moreover have "replicate 4 (Get url) = Get url # replicate 3 (Get url)"
    by (simp add: numeral_Bit0 numeral_Bit1)
  ultimately show ?thesis
    using st by (auto simp: get_with_retries_def requests_get_def)
qed

lemma get_response_loop_failing:
  assumes "\<forall>trace url. status_code (srv trace url) \<noteq> 200"
  shows "get_response_loop srv url retries trace
           = (None, trace @ concat (replicate (3 - retries) [Get url, Sleep 1]))"
proof (induction "3 - retries" arbitrary: retries trace)
  case 0
  then show ?case by (subst get_response_loop.simps) auto
next
  case (Suc k)
  then have t: "retries < 3" and k: "k = 3 - (retries + 1)" by simp_all
  have st: "status_code (srv trace url) \<noteq> 200" using assms by simp
  have "3 - retries = Suc (3 - (retries + 1))" using t by simp
  then have "concat (replicate (3 - retries) [Get url, Sleep 1])
      = [Get url, Sleep 1] @ concat (replicate (3 - (retries + 1)) [Get url, Sleep 1])"
    by simp
  with Suc.hyps(1)[OF k, of "time_sleep 1 (trace @ [Get url])"] t st show ?case
    by (subst get_response_loop.simps) (simp add: requests_get_def time_sleep_def)
qed

text \<open>
  C2 as the code has it. When every response of the service has a status other than 200,
  \<open>get_kegg_pathways\<close> requests the search URL four times (the request and three
  repetitions, with no sleep between them) and returns the empty list;
  \<open>get_enzymes_for_gene\<close>, in both modules that define it, requests its URL once, does
  not retry and returns \<open>None\<close>; \<open>get_response\<close> sleeps one second after each request
  that failed and returns \<open>None\<close>. None of them raises.
\<close>

theorem lookups_on_failing_service:
  assumes "\<forall>trace url. status_code (srv trace url) \<noteq> 200"
  shows "get_kegg_pathways srv re_compile compound_name trace
           = (Inr (PyList []),
              trace @ replicate 4 (Get (''http://rest.kegg.jp/find/compound/'' @ quote compound_name)))
       \<and> get_enzymes_for_gene srv gene trace
           = (Inr None, trace @ [Get (''http://rest.kegg.jp/link/enzyme/'' @ gene)])
       \<and> ReadResults_get_enzymes_for_gene srv gene trace
           = (Inr None, trace @ [Get (''http://rest.kegg.jp/link/enzyme/'' @ gene), Sleep 1])
       \<and> (\<exists>n. get_response srv url trace
                 = (None, trace @ concat (replicate n [Get url, Sleep 1])))"
proof (intro conjI)
  from get_with_retries_failing[OF assms,
      of "''http://rest.kegg.jp/find/compound/'' @ quote compound_name" trace]
  show "get_kegg_pathways srv re_compile compound_name trace
           = (Inr (PyList []),
              trace @ replicate 4 (Get (''http://rest.kegg.jp/find/compound/'' @ quote compound_name)))"
    by (auto simp: get_kegg_pathways_def Let_def)
  show "get_enzymes_for_gene srv gene trace
           = (Inr None, trace @ [Get (''http://rest.kegg.jp/link/enzyme/'' @ gene)])"
    using assms by (simp add: get_enzymes_for_gene_def Let_def requests_get_def)
  show "ReadResults_get_enzymes_for_gene srv gene trace
           = (Inr None, trace @ [Get (''http://rest.kegg.jp/link/enzyme/'' @ gene), Sleep 1])"
    using assms
    by (simp add: ReadResults_get_enzymes_for_gene_def Let_def requests_get_def time_sleep_def)
  show "\<exists>n. get_response srv url trace
                 = (None, trace @ concat (replicate n [Get url, Sleep 1]))"
    unfolding get_response_def using get_response_loop_failing[OF assms] by blast
qed

theorem lookups_on_failing_service_witness:
  "get_kegg_pathways always_fail stub_compile ''Raffinose'' []
     = (Inr (PyList []), replicate 4 (Get ''http://rest.kegg.jp/find/compound/Raffinose''))
   \<and> get_enzymes_for_gene always_fail ''ath:AT1G06290'' []
     = (Inr None, [Get ''http://rest.kegg.jp/link/enzyme/ath:AT1G06290''])
   \<and> ReadResults_get_enzymes_for_gene always_fail ''ath:AT1G06290'' []
     = (Inr None, [Get ''http://rest.kegg.jp/link/enzyme/ath:AT1G06290'', Sleep 1])
   \<and> (\<exists>n. get_response always_fail ''https://rest.kegg.jp/link/ath/ath00052'' []
         = (None, concat (replicate n [Get ''https://rest.kegg.jp/link/ath/ath00052'', Sleep 1])))"
proof -
  have h: "\<forall>trace url. status_code (always_fail trace url) \<noteq> 200"
    by (simp add: always_fail_def)
  have q: "quote ''Raffinose'' = ''Raffinose''" by code_simp
  from lookups_on_failing_service[OF h, of stub_compile "''Raffinose''" "[]"
      "''ath:AT1G06290''" "''https://rest.kegg.jp/link/ath/ath00052''"]
  show ?thesis unfolding q by simp
qed

text \<open>
  The claim C2 as stated fails: on the service that always fails, the gene-to-enzyme
  lookup invokes the fetch once and the pathway-to-gene lookup three times, not four
  times.
\<close>

theorem four_fetches_counterexample:
  "fetches (snd (get_enzymes_for_gene always_fail ''ath:AT1G06290'' [])) = 1
   \<and> fetches (snd (get_genes_for_pathways always_fail [''path:map00052''] [])) = 3
   \<and> fetches (snd (get_enzymes_for_gene always_fail ''ath:AT1G06290'' [])) \<noteq> 4
   \<and> fetches (snd (get_genes_for_pathways always_fail [''path:map00052''] [])) \<noteq> 4"
  by code_simp

text \<open>
  C3. On the service that always fails, the batch run over the single compound
  \<open>Raffinose\<close> ends after four rounds, not three: the loop \<open>while consecutive_failures <= 3\<close>
  runs a fourth round with the counter at 3 and stops with the counter at 4, after 16
  requests, with the compound in the final failed set. With a second compound that
  resolves in the first round, the run ends after five rounds, four of them with the
  retry set unchanged.
\<close>

theorem batch_run_stops_after_four_unchanged_rounds:
  "(case main_loop always_fail stub_compile [''Raffinose''] initial_state [] of
      (Inr st, trace) \<Rightarrow>
        Some (rounds st, failed_compounds st, consecutive_failures st, fetches trace)
    | (Inl e, trace) \<Rightarrow> None)
     = Some (4, [''Raffinose''], 4, 16)
   \<and> (case main_loop kegg_stub stub_compile [''Glucose'', ''Raffinose''] initial_state [] of
      (Inr st, trace) \<Rightarrow>
        Some (rounds st, failed_compounds st, consecutive_failures st, fetches trace)
    | (Inl e, trace) \<Rightarrow> None)
     = Some (5, [''Raffinose''], 4, 26)"
  by code_simp

section \<open>Properties of the pathway results\<close>

lemma pathway_ids_of_no_overview: "\<forall>p \<in> set (pathway_ids_of resp_lines). \<not> overview p"
  by (simp add: pathway_ids_of_def overview_def)

lemma compound_lines_no_overview:
  assumes "\<forall>p \<in> set pathways. \<not> overview p"
    and "fst (compound_lines srv finder lines pathways trace) = Inr r"
  shows "\<forall>p \<in> members r. \<not> overview p"
  using assms
proof (induction lines arbitrary: pathways trace)
  case Nil
  then show ?case by auto
next
  case (Cons line lines)
  show ?case
  proof (cases "\<exists>compound_id compound_names. py_split TAB line = [compound_id, compound_names]")
    case False
    then have "fst (compound_lines srv finder (line # lines) pathways trace) = Inl ValueError"
      by (auto split: list.splits)
    with Cons.prems show ?thesis by simp
  next
    case True
    then obtain compound_id compound_names
      where sp: "py_split TAB line = [compound_id, compound_names]" by blast
    show ?thesis
    proof (cases "finder compound_names")
      case False
      with sp Cons.prems(2)
      have "fst (compound_lines srv finder lines pathways trace) = Inr r" by simp
      from Cons.IH[OF Cons.prems(1) this] show ?thesis .
    next
      case True
      define url where "url = ''http://rest.kegg.jp/'' @ ''link/pathway/'' @ compound_id"
      obtain response trace'
        where g: "get_with_retries srv url trace = (response, trace')"
        by (cases "get_with_retries srv url trace")
      have step: "compound_lines srv finder (line # lines) pathways trace =
          (if status_code response \<noteq> 200 then (Inr (PySet (set pathways)), trace')
           else compound_lines srv finder lines
                  (pathways @ pathway_ids_of (py_split NL (py_strip (resp_text response))))
                  trace')"
        using sp True g unfolding url_def by (simp add: Let_def del: append.simps)
      show ?thesis
      proof (cases "status_code response = 200")
        case False
        with step Cons.prems show ?thesis by auto
      next
        case ok: True
        let ?more = "pathways @ pathway_ids_of (py_split NL (py_strip (resp_text response)))"
        have inv: "\<forall>p \<in> set ?more. \<not> overview p"
          using Cons.prems(1) pathway_ids_of_no_overview by auto
        have run: "fst (compound_lines srv finder lines ?more trace') = Inr r"
          using step ok Cons.prems(2) by simp
        from Cons.IH[OF inv run] show ?thesis .
      qed
    qed
  qed
qed


lemma get_kegg_pathways_no_overview:
  assumes "fst (get_kegg_pathways srv re_compile compound_name trace) = Inr r"
  shows "\<forall>p \<in> members r. \<not> overview p"
proof -
  define url where "url = ''http://rest.kegg.jp/'' @ ''find/compound/'' @ quote compound_name"
  obtain response trace'
    where g: "get_with_retries srv url trace = (response, trace')"
    by (cases "get_with_retries srv url trace")
  define lines where "lines = py_split NL (py_strip (resp_text response))"
  have step: "get_kegg_pathways srv re_compile compound_name trace =
      (if status_code response \<noteq> 200 then (Inr (PyList []), trace')
       else if lines = [] then (Inr (PyList []), trace')
       else (case re_compile compound_name of
               None \<Rightarrow> (Inl ReError, trace')
             | Some finder \<Rightarrow> compound_lines srv finder lines [] trace'))"
    using g unfolding url_def lines_def get_kegg_pathways_def
    by (simp add: Let_def del: append.simps)
  show ?thesis
  proof (cases "status_code response = 200 \<and> lines \<noteq> []")
    case False
    with assms step have "r = PyList []" by (auto split: if_splits)
    then show ?thesis by simp
  next
    case True
    show ?thesis
    proof (cases "re_compile compound_name")
      case None
      with assms step True show ?thesis by simp
    next
      case (Some finder)
      with assms step True
      have "fst (compound_lines srv finder lines [] trace') = Inr r" by simp
      from compound_lines_no_overview[OF _ this] show ?thesis by simp
    qed
  qed
qed

lemma genes_for_pathways_loop_no_overview:
  assumes "\<forall>p \<in> dom genes. \<not> overview p"
  shows "\<forall>p \<in> dom (fst (genes_for_pathways_loop srv pathway_list genes trace)). \<not> overview p"
  using assms
proof (induction pathway_list arbitrary: genes trace)
  case Nil
  then show ?case by simp
next
  case (Cons pathway_id pathway_list)
  show ?case
  proof (cases "overview pathway_id")
    case True
    then have "genes_for_pathways_loop srv (pathway_id # pathway_list) genes trace
        = genes_for_pathways_loop srv pathway_list genes trace"
      unfolding overview_def by (simp del: append.simps)
    with Cons show ?thesis by simp
  next
    case False
    define url where "url = ''https://rest.kegg.jp/link/ath/'' @ ''ath'' @ drop 8 pathway_id"
    obtain response trace'
      where g: "get_response srv url trace = (response, trace')"
      by (cases "get_response srv url trace")
    show ?thesis
    proof (cases response)
      case None
      have "genes_for_pathways_loop srv (pathway_id # pathway_list) genes trace
          = genes_for_pathways_loop srv pathway_list genes trace'"
        using False g None unfolding overview_def url_def
        by (simp add: Let_def del: append.simps)
      with Cons show ?thesis by simp
    next
      case (Some resp)
      define found where "found = second_columns (py_split NL (py_strip (resp_text resp)))"
      define genes' where "genes' = (if found = [] then (genes(pathway_id \<mapsto> found))(pathway_id := None)
                    else genes(pathway_id \<mapsto> found))"
      have inv: "\<forall>p \<in> dom genes'. \<not> overview p"
        using Cons.prems False unfolding genes'_def by (auto split: if_splits)
      have "genes_for_pathways_loop srv (pathway_id # pathway_list) genes trace
              = genes_for_pathways_loop srv pathway_list genes' trace'"
        using False g Some unfolding overview_def url_def genes'_def found_def
        by (simp add: Let_def del: append.simps)
      with Cons.IH[OF inv] show ?thesis by simp
    qed
  qed
qed


lemma process_compounds_no_overview:
  assumes "\<forall>c ps. pd c = Some ps \<longrightarrow> (\<forall>p \<in> ps. \<not> overview p)"
    and "fst (process_compounds srv re_compile cs failed pd trace) = Inr (failed', pd')"
  shows "\<forall>c ps. pd' c = Some ps \<longrightarrow> (\<forall>p \<in> ps. \<not> overview p)"
  using assms
proof (induction cs arbitrary: failed pd trace)
  case Nil
  then show ?case by simp
next
  case (Cons c cs)
  obtain r t where g: "get_kegg_pathways srv re_compile c trace = (r, t)"
    by (cases "get_kegg_pathways srv re_compile c trace")
  show ?case
  proof (cases r)
    case (Inl e)
    with Cons.prems g show ?thesis by simp
  next
    case (Inr pathways)
    with g have "fst (get_kegg_pathways srv re_compile c trace) = Inr pathways" by simp
    from get_kegg_pathways_no_overview[OF this]
    have clean: "\<forall>p \<in> members pathways. \<not> overview p" .
    show ?thesis
    proof (cases "truthy pathways")
      case True
      have inv: "\<forall>c' ps. (pd(c \<mapsto> members pathways)) c' = Some ps \<longrightarrow> (\<forall>p \<in> ps. \<not> overview p)"
        using Cons.prems(1) clean by auto
      from Cons.prems(2) g Inr True
      have "fst (process_compounds srv re_compile cs failed (pd(c \<mapsto> members pathways)) t)
              = Inr (failed', pd')"
        by simp
      from Cons.IH[OF inv this] show ?thesis .
    next
      case False
      from Cons.prems(2) g Inr False
      have "fst (process_compounds srv re_compile cs (set_add c failed) pd t)
              = Inr (failed', pd')"
        by simp
      from Cons.IH[OF Cons.prems(1) this] show ?thesis .
    qed
  qed
qed

lemma main_loop_no_overview:
  assumes "\<forall>c ps. path_dict st c = Some ps \<longrightarrow> (\<forall>p \<in> ps. \<not> overview p)"
    and "fst (main_loop srv re_compile traits st trace) = Inr st'"
  shows "\<forall>c ps. path_dict st' c = Some ps \<longrightarrow> (\<forall>p \<in> ps. \<not> overview p)"
  using assms
proof (induction srv re_compile traits st trace rule: main_loop.induct)
  case (1 srv re_compile traits st trace)
  show ?case
  proof (cases "consecutive_failures st \<le> 3")
    case False
    with "1.prems" show ?thesis by (simp add: main_loop.simps)
  next
    case True
    let ?todo = "if run_for_all_traits st then remdups traits else failed_compounds st"
    obtain r t where p: "process_compounds srv re_compile ?todo [] (path_dict st) trace = (r, t)"
      by (cases "process_compounds srv re_compile ?todo [] (path_dict st) trace")
    show ?thesis
    proof (cases r)
      case (Inl e)
      with "1.prems"(2) True p show ?thesis
        by (subst (asm) main_loop.simps) (simp add: Let_def)
    next
      case (Inr fp)
      obtain failed pd where fp: "fp = (failed, pd)" by (cases fp)
      let ?next = "\<lparr>failed_compounds = failed,
                  consecutive_failures =
                    (if set failed = set ?todo then consecutive_failures st + 1 else 0),
                  run_for_all_traits = False,
                  path_dict = pd,
                  rounds = rounds st + 1\<rparr>"
      from p Inr fp
      have "fst (process_compounds srv re_compile ?todo [] (path_dict st) trace)
              = Inr (failed, pd)"
        by simp
      from process_compounds_no_overview[OF "1.prems"(1) this]
      have inv: "\<forall>c ps. path_dict ?next c = Some ps \<longrightarrow> (\<forall>p \<in> ps. \<not> overview p)"
        by simp
      have run: "fst (main_loop srv re_compile traits ?next t) = Inr st'"
        using "1.prems"(2) True p Inr fp
        by (subst (asm) main_loop.simps) (simp add: Let_def)
      from "1.IH"[OF True refl p[symmetric] _ _ inv run] Inr fp show ?thesis
        by simp
    qed
  qed
qed

text \<open>
  C6. Whatever the service answers, no pathway id that starts with \<open>path:map011\<close> or
  \<open>path:map012\<close> is a member of a result of \<open>get_kegg_pathways\<close>, a key of the dictionary
  that \<open>get_genes_for_pathways\<close> returns, or a member of an entry of the \<open>path_dict\<close>
  that the batch run builds.
\<close>

theorem no_overview_pathway_returned:
  "(\<forall>r. fst (get_kegg_pathways srv re_compile compound_name trace) = Inr r
        \<longrightarrow> (\<forall>p \<in> members r. \<not> overview p))
   \<and> (\<forall>p \<in> dom (fst (get_genes_for_pathways srv pathway_list trace)). \<not> overview p)
   \<and> (\<forall>st c ps. fst (main_loop srv re_compile traits initial_state trace) = Inr st
        \<and> path_dict st c = Some ps \<longrightarrow> (\<forall>p \<in> ps. \<not> overview p))"
proof (intro conjI allI impI)
  fix r assume "fst (get_kegg_pathways srv re_compile compound_name trace) = Inr r"
  then show "\<forall>p \<in> members r. \<not> overview p" by (rule get_kegg_pathways_no_overview)
next
  show "\<forall>p \<in> dom (fst (get_genes_for_pathways srv pathway_list trace)). \<not> overview p"
    unfolding get_genes_for_pathways_def
    by (rule genes_for_pathways_loop_no_overview) simp
next
  fix st c ps
  assume a: "fst (main_loop srv re_compile traits initial_state trace) = Inr st
        \<and> path_dict st c = Some ps"
  have "\<forall>c ps. path_dict initial_state c = Some ps \<longrightarrow> (\<forall>p \<in> ps. \<not> overview p)"
    by (simp add: initial_state_def)
  from main_loop_no_overview[OF this conjunct1[OF a]] a
  show "\<forall>p \<in> ps. \<not> overview p" by blast
qed

theorem no_overview_pathway_returned_witness:
  "fst (get_kegg_pathways kegg_stub stub_compile ''Glucose'' [])
     = Inr (PySet {''path:map00010'', ''path:map00052''})
   \<and> overview ''path:map01100'' \<and> overview ''path:map01200''
   \<and> ''path:map01100'' \<notin> members (PySet {''path:map00010'', ''path:map00052''})
   \<and> fst (get_genes_for_pathways kegg_stub [''path:map00010'', ''path:map01100''] [])
       ''path:map00010'' = Some [''ath:AT1G01090'', ''ath:AT1G04410'']
   \<and> ''path:map01100''
       \<notin> dom (fst (get_genes_for_pathways kegg_stub [''path:map00010'', ''path:map01100''] []))"
proof -
  have v: "fst (get_kegg_pathways kegg_stub stub_compile ''Glucose'' [])
     = Inr (PySet {''path:map00010'', ''path:map00052''})"
    by code_simp
  have o: "overview ''path:map01100''" "overview ''path:map01200''"
    by code_simp+
  have g: "fst (get_genes_for_pathways kegg_stub [''path:map00010'', ''path:map01100''] [])
       ''path:map00010'' = Some [''ath:AT1G01090'', ''ath:AT1G04410'']"
    by code_simp
  note t = no_overview_pathway_returned[of kegg_stub stub_compile "''Glucose''" "[]"
      "[''path:map00010'', ''path:map01100'']"]
  from t v o have m: "''path:map01100'' \<notin> members (PySet {''path:map00010'', ''path:map00052''})"
    by blast
  from t o have d: "''path:map01100''
       \<notin> dom (fst (get_genes_for_pathways kegg_stub [''path:map00010'', ''path:map01100''] []))"
    by blast
  from v o m g d show ?thesis by blast
qed

section \<open>Properties of the batch round\<close>

lemma process_compounds_untouched:
  assumes "process_compounds srv re_compile cs failed pd trace = (Inr (failed', pd'), trace')"
  shows "set failed' \<subseteq> set failed \<union> set cs \<and> (\<forall>c. c \<notin> set cs \<longrightarrow> pd' c = pd c)"
  using assms
proof (induction cs arbitrary: failed pd trace)
  case Nil
  then show ?case by simp
next
  case (Cons c cs)
  obtain r t where g: "get_kegg_pathways srv re_compile c trace = (r, t)"
    by (cases "get_kegg_pathways srv re_compile c trace")
  show ?case
  proof (cases r)
    case (Inl e)
    with Cons.prems g show ?thesis by simp
  next
    case (Inr pathways)
    show ?thesis
    proof (cases "truthy pathways")
      case True
      with Cons.prems g Inr
      have "process_compounds srv re_compile cs failed (pd(c \<mapsto> members pathways)) t
              = (Inr (failed', pd'), trace')"
        by simp
      from Cons.IH[OF this] show ?thesis by auto
    next
      case False
      with Cons.prems g Inr
      have "process_compounds srv re_compile cs (set_add c failed) pd t
              = (Inr (failed', pd'), trace')"
        by simp
      from Cons.IH[OF this] show ?thesis by (auto simp: set_add_def split: if_splits)
    qed
  qed
qed

text \<open>
  C10. In the loop of \<open>get_kegg_pathways\<close> over the lines of the search result, when the
  pathway lookup of a matched compound id still has a status other than 200 after its
  repetitions, the function returns the set of the pathways collected so far: the value
  it returns when the lines end there. In the batch round, a compound whose result is a
  set that is not empty, however it came about, is entered in \<open>path_dict\<close> and is not
  added to the failed compounds.
\<close>

theorem partial_result_counts_as_success:
  "(py_split TAB line = [compound_id, compound_names] \<and> finder compound_names
      \<and> status_code (fst (get_with_retries srv
            (''http://rest.kegg.jp/link/pathway/'' @ compound_id) trace)) \<noteq> 200
    \<longrightarrow> fst (compound_lines srv finder (line # lines) pathways trace)
          = Inr (PySet (set pathways))
        \<and> fst (compound_lines srv finder (line # lines) pathways trace)
          = fst (compound_lines srv finder [] pathways trace))
   \<and> (get_kegg_pathways srv re_compile kegg_comp trace0 = (Inr (PySet S), trace1) \<and> S \<noteq> {}
      \<and> kegg_comp \<notin> set failed \<and> kegg_comp \<notin> set rest
      \<and> process_compounds srv re_compile (kegg_comp # rest) failed pd trace0
          = (Inr (failed', pd'), trace2)
    \<longrightarrow> kegg_comp \<notin> set failed' \<and> pd' kegg_comp = Some S)"
proof (intro conjI impI)
  assume a: "py_split TAB line = [compound_id, compound_names] \<and> finder compound_names
      \<and> status_code (fst (get_with_retries srv
            (''http://rest.kegg.jp/link/pathway/'' @ compound_id) trace)) \<noteq> 200"
  define url where "url = ''http://rest.kegg.jp/'' @ ''link/pathway/'' @ compound_id"
  have same: "''http://rest.kegg.jp/link/pathway/'' @ compound_id = url"
    by (simp add: url_def)
  obtain response trace'
    where g: "get_with_retries srv url trace = (response, trace')"
    by (cases "get_with_retries srv url trace")
  from a g have bad: "status_code response \<noteq> 200" unfolding same by simp
  have "compound_lines srv finder (line # lines) pathways trace
      = (Inr (PySet (set pathways)), trace')"
    using a g bad unfolding url_def by (simp add: Let_def del: append.simps)
  then show "fst (compound_lines srv finder (line # lines) pathways trace)
          = Inr (PySet (set pathways))"
    and "fst (compound_lines srv finder (line # lines) pathways trace)
          = fst (compound_lines srv finder [] pathways trace)"
    by simp_all
next
  assume b: "get_kegg_pathways srv re_compile kegg_comp trace0 = (Inr (PySet S), trace1)
      \<and> S \<noteq> {}
      \<and> kegg_comp \<notin> set failed \<and> kegg_comp \<notin> set rest
      \<and> process_compounds srv re_compile (kegg_comp # rest) failed pd trace0
          = (Inr (failed', pd'), trace2)"
  then have g: "get_kegg_pathways srv re_compile kegg_comp trace0 = (Inr (PySet S), trace1)"
    and ne: "S \<noteq> {}"
    and p: "process_compounds srv re_compile (kegg_comp # rest) failed pd trace0
          = (Inr (failed', pd'), trace2)"
    by blast+
  from p have "process_compounds srv re_compile rest failed (pd(kegg_comp \<mapsto> S)) trace1
          = (Inr (failed', pd'), trace2)"
    by (simp add: g ne)
  from process_compounds_untouched[OF this] b
  show "kegg_comp \<notin> set failed'" and "pd' kegg_comp = Some S"
    by auto
qed

theorem partial_result_counts_as_success_witness:
  "fst (compound_lines kegg_stub (listed_name ''Glucose'')
          [''cpd:C00221'' @ [TAB] @ ''beta-D-Glucose; Glucose'']
          [''path:map00010'', ''path:map00052''] [])
     = Inr (PySet (set [''path:map00010'', ''path:map00052'']))
   \<and> fetches (snd (get_with_retries kegg_stub ''http://rest.kegg.jp/link/pathway/cpd:C00221'' []))
       = 4
   \<and> get_kegg_pathways kegg_stub stub_compile ''Glucose'' []
     = (Inr (PySet {''path:map00010'', ''path:map00052''}),
        [Get ''http://rest.kegg.jp/find/compound/Glucose'',
         Get ''http://rest.kegg.jp/link/pathway/cpd:C00031'',
         Get ''http://rest.kegg.jp/link/pathway/cpd:C00221'',
         Get ''http://rest.kegg.jp/link/pathway/cpd:C00221'',
         Get ''http://rest.kegg.jp/link/pathway/cpd:C00221'',
         Get ''http://rest.kegg.jp/link/pathway/cpd:C00221''])
   \<and> ''Glucose'' \<notin> set (fst (projr (fst
         (process_compounds kegg_stub stub_compile [''Glucose'', ''Raffinose''] [] Map.empty []))))
   \<and> fst (projr (fst
         (process_compounds kegg_stub stub_compile [''Glucose'', ''Raffinose''] [] Map.empty [])))
       = [''Raffinose'']"
proof -
  let ?line = "''cpd:C00221'' @ [TAB] @ ''beta-D-Glucose; Glucose''"
  have s: "py_split TAB ?line = [''cpd:C00221'', ''beta-D-Glucose; Glucose'']" by code_simp
  have f: "listed_name ''Glucose'' ''beta-D-Glucose; Glucose''" by code_simp
  have b: "status_code (fst (get_with_retries kegg_stub
            (''http://rest.kegg.jp/link/pathway/'' @ ''cpd:C00221'') [])) \<noteq> 200"
    by code_simp
  have n: "fetches (snd (get_with_retries kegg_stub ''http://rest.kegg.jp/link/pathway/cpd:C00221'' []))
       = 4"
    by code_simp
  have k: "get_kegg_pathways kegg_stub stub_compile ''Glucose'' []
     = (Inr (PySet {''path:map00010'', ''path:map00052''}),
        [Get ''http://rest.kegg.jp/find/compound/Glucose'',
         Get ''http://rest.kegg.jp/link/pathway/cpd:C00031'',
         Get ''http://rest.kegg.jp/link/pathway/cpd:C00221'',
         Get ''http://rest.kegg.jp/link/pathway/cpd:C00221'',
         Get ''http://rest.kegg.jp/link/pathway/cpd:C00221'',
         Get ''http://rest.kegg.jp/link/pathway/cpd:C00221''])"
    by code_simp
  have ne: "{''path:map00010'', ''path:map00052''} \<noteq> ({} :: string set)" by simp
  have c1: "''Glucose'' \<notin> set ([] :: string list)" by simp
  have c2: "''Glucose'' \<notin> set [''Raffinose'']" by simp
  let ?run = "process_compounds kegg_stub stub_compile [''Glucose'', ''Raffinose''] [] Map.empty []"
  have v: "fst (projr (fst ?run)) = [''Raffinose'']"
    by code_simp
  have "case fst ?run of Inl e \<Rightarrow> False | Inr x \<Rightarrow> True"
    by code_simp
  then obtain x where "fst ?run = Inr x"
    by (cases "fst ?run") auto
  with v obtain pd' trace2 where p: "?run = (Inr ([''Raffinose''], pd'), trace2)"
    by (cases ?run, cases x) auto
  note t = partial_result_counts_as_success
  from conjunct1[OF t[where line = ?line and compound_id = "''cpd:C00221''"
        and compound_names = "''beta-D-Glucose; Glucose''" and finder = "listed_name ''Glucose''"
        and srv = kegg_stub and trace = "[]" and lines = "[]"
        and pathways = "[''path:map00010'', ''path:map00052'']"]] s f b
  have w1: "fst (compound_lines kegg_stub (listed_name ''Glucose'') [?line]
          [''path:map00010'', ''path:map00052''] [])
     = Inr (PySet (set [''path:map00010'', ''path:map00052'']))"
    by blast
  from conjunct2[OF t[where srv = kegg_stub and re_compile = stub_compile
        and kegg_comp = "''Glucose''" and ?trace0.0 = "[]"
        and S = "{''path:map00010'', ''path:map00052''}" and failed = "[]"
        and rest = "[''Raffinose'']" and pd = Map.empty and failed' = "[''Raffinose'']"
        and pd' = pd' and ?trace2.0 = trace2]] k ne c1 c2 p
  have w2: "''Glucose'' \<notin> set [''Raffinose'']" by blast
  from w1 n k v w2 show ?thesis by simp
qed

section \<open>Properties of the statistical test\<close>

lemma p_values_loop_closed:
  assumes "\<forall>row \<in> set rows. 0 \<le> map_Gene_Counts row \<and> map_Gene_Counts row \<le> 27302
             \<and> 0 \<le> Gene_Count row \<and> Gene_Count row \<le> mQTL_Gene_Counts row"
  shows "p_values_loop fisher_exact 27302 rows p_values
           = Inr (p_values @ map (table_p_value fisher_exact) rows)"
  using assms
  by (induction rows arbitrary: p_values)
     (auto simp: Let_def table_p_value_def split: prod.splits)

text \<open>
  C7. On rows whose counts give no negative table entry, and with a correction that
  returns one adjusted value per p-value, the statistical test keeps one row per compound,
  sets the gene universe \<open>27533 - 231\<close>, that is 27302, gives each row the p-value of
  \<open>fisher_exact\<close> on the table \<open>a = map Gene Counts\<close>, \<open>b = 27302 - a\<close>,
  \<open>c = Gene_Count\<close>, \<open>d = mQTL Gene Counts - c\<close>, and takes the adjusted p-values of
  all rows from one call of \<open>multipletests\<close> on the whole vector of p-values.
\<close>

theorem enrichment_test_tables_and_single_batch:
  assumes "\<forall>row \<in> set merged_df. 0 \<le> map_Gene_Counts row \<and> map_Gene_Counts row \<le> 27302
             \<and> 0 \<le> Gene_Count row \<and> Gene_Count row \<le> mQTL_Gene_Counts row"
    and "length (snd (multipletests (map (table_p_value fisher_exact) merged_df)))
           = length merged_df"
  shows "\<exists>tested. statistical_test fisher_exact multipletests merged_df = Inr tested
     \<and> length tested = length merged_df
     \<and> (\<forall>i < length merged_df.
           count_row.truncate (tested ! i) = merged_df ! i
         \<and> Total_Genes (tested ! i) = 27302
         \<and> Fisher_Exact_p_value (tested ! i)
             = snd (fisher_exact (map_Gene_Counts (merged_df ! i))
                      (27302 - map_Gene_Counts (merged_df ! i))
                      (Gene_Count (merged_df ! i))
                      (mQTL_Gene_Counts (merged_df ! i) - Gene_Count (merged_df ! i))))
     \<and> map Adj_p_value tested = snd (multipletests (map Fisher_Exact_p_value tested))"
proof -
  define ps where "ps = map (table_p_value fisher_exact) merged_df"
  obtain reject adjusted where m: "multipletests ps = (reject, adjusted)"
    by (cases "multipletests ps")
  with assms(2) have len: "length adjusted = length merged_df" by (simp add: ps_def)
  define tested where "tested = map (\<lambda>(row, p_value, adjusted).
                                   count_row.extend row
                                     \<lparr>Total_Genes = 27302,
                                      Fisher_Exact_p_value = p_value,
                                      Adj_p_value = adjusted\<rparr>)
                              (zip merged_df (zip ps adjusted))"
  have run: "statistical_test fisher_exact multipletests merged_df = Inr tested"
    unfolding statistical_test_def
    using p_values_loop_closed[OF assms(1), of fisher_exact "[]"] m len
    by (simp add: tested_def ps_def)
  have l: "length tested = length merged_df"
    by (simp add: tested_def ps_def len)
  have nth: "tested ! i = count_row.extend (merged_df ! i)
                \<lparr>Total_Genes = 27302, Fisher_Exact_p_value = ps ! i, Adj_p_value = adjusted ! i\<rparr>"
    if "i < length merged_df" for i
    using that len by (simp add: tested_def ps_def)
  have rows: "count_row.truncate (tested ! i) = merged_df ! i
         \<and> Total_Genes (tested ! i) = 27302
         \<and> Fisher_Exact_p_value (tested ! i)
             = snd (fisher_exact (map_Gene_Counts (merged_df ! i))
                      (27302 - map_Gene_Counts (merged_df ! i))
                      (Gene_Count (merged_df ! i))
                      (mQTL_Gene_Counts (merged_df ! i) - Gene_Count (merged_df ! i)))"
    if "i < length merged_df" for i
    using that nth[OF that]
    by (simp add: count_row.extend_def count_row.truncate_def ps_def table_p_value_def)
  have fp: "map Fisher_Exact_p_value tested = ps"
    by (rule nth_equalityI) (simp_all add: l nth count_row.extend_def, simp add: ps_def)
  have ap: "map Adj_p_value tested = adjusted"
    by (rule nth_equalityI) (simp_all add: l len nth count_row.extend_def)
  from run l rows fp ap m show ?thesis by auto
qed


theorem enrichment_test_tables_and_single_batch_witness:
  "statistical_test stand_in_fisher_exact stand_in_multipletests demo_counts =
     Inr [count_row.extend (demo_counts ! 0)
            \<lparr>Total_Genes = 27302, Fisher_Exact_p_value = 1 / 125, Adj_p_value = 2 / 125\<rparr>,
          count_row.extend (demo_counts ! 1)
            \<lparr>Total_Genes = 27302, Fisher_Exact_p_value = 1 / 31, Adj_p_value = 2 / 31\<rparr>]
   \<and> [2 / 125, 2 / 31] = snd (stand_in_multipletests [1 / 125, 1 / 31])
   \<and> (\<exists>tested. statistical_test stand_in_fisher_exact stand_in_multipletests demo_counts
                   = Inr tested
        \<and> map Adj_p_value tested
            = snd (stand_in_multipletests (map Fisher_Exact_p_value tested)))"
proof -
  have h1: "\<forall>row \<in> set demo_counts. 0 \<le> map_Gene_Counts row \<and> map_Gene_Counts row \<le> 27302
             \<and> 0 \<le> Gene_Count row \<and> Gene_Count row \<le> mQTL_Gene_Counts row"
    by (simp add: demo_counts_def)
  have h2: "length (snd (stand_in_multipletests
                (map (table_p_value stand_in_fisher_exact) demo_counts)))
           = length demo_counts"
    by (simp add: stand_in_multipletests_def)
  have v: "statistical_test stand_in_fisher_exact stand_in_multipletests demo_counts =
     Inr [count_row.extend (demo_counts ! 0)
            \<lparr>Total_Genes = 27302, Fisher_Exact_p_value = 1 / 125, Adj_p_value = 2 / 125\<rparr>,
          count_row.extend (demo_counts ! 1)
            \<lparr>Total_Genes = 27302, Fisher_Exact_p_value = 1 / 31, Adj_p_value = 2 / 31\<rparr>]"
    by (simp add: statistical_test_def demo_counts_def stand_in_fisher_exact_def
        stand_in_multipletests_def Let_def)
  have b: "[2 / 125, 2 / 31] = snd (stand_in_multipletests [1 / 125, 1 / 31])"
    by (simp add: stand_in_multipletests_def)
  from enrichment_test_tables_and_single_batch[where multipletests = stand_in_multipletests
      and fisher_exact = stand_in_fisher_exact and merged_df = demo_counts, OF h1 h2]
  have "\<exists>tested. statistical_test stand_in_fisher_exact stand_in_multipletests demo_counts
                   = Inr tested
        \<and> map Adj_p_value tested
            = snd (stand_in_multipletests (map Fisher_Exact_p_value tested))"
    by blast
  with v b show ?thesis by blast
qed

end
